theory Spec2Isabelle
  imports Complex_Main
begin

section \<open>The Aura loader: mapping-to-query compiler and load orchestrator\<close>

text \<open>
  This theory embeds \<^verbatim>\<open>src/bin/auraLoader.py\<close>. The loader reads a declarative
  mapping, compiles each node and relationship specification into the text of a Cypher
  statement, and sends the statements to a graph database in the order the mapping gives.

  Text taken from the mapping (labels, column names, property names) and the generated
  Cypher text are values of type \<open>string\<close>. Cell values read from a CSV file are lists of
  Unicode code points (\<open>ustr\<close>), because the byte-order mark U+FEFF is a single code point
  for Python and for the database alike.
\<close>

subsection \<open>Exceptions and Python helpers\<close>

datatype exn =
    KeyError string
  | IndexError
  | ValueError
  | RuntimeError string
  | TypeError
  | HTTPError
  | DatabaseError

type_synonym ustr = "nat list"

definition BOM :: nat where
  "BOM = 0xFEFF"

definition bslash :: string where
  "bslash = [CHR 0x5C]"

text \<open>\<^verbatim>\<open>sep.join(xs)\<close>\<close>

fun join :: "'a list \<Rightarrow> 'a list list \<Rightarrow> 'a list" where
  "join sep [] = []"
| "join sep [x] = x"
| "join sep (x # y # ys) = x @ sep @ join sep (y # ys)"

text \<open>\<^verbatim>\<open>d[k]\<close> on a dictionary entry that may be absent.\<close>

definition item :: "string \<Rightarrow> 'a option \<Rightarrow> exn + 'a" where
  "item k v = (case v of None \<Rightarrow> Inl (KeyError k) | Some x \<Rightarrow> Inr x)"

text \<open>\<^verbatim>\<open>xs[0]\<close>\<close>

definition first :: "'a list \<Rightarrow> exn + 'a" where
  "first xs = (case xs of [] \<Rightarrow> Inl IndexError | x # _ \<Rightarrow> Inr x)"

subsection \<open>Constraint and index statements\<close>

text \<open>
  One entry of \<^verbatim>\<open>mapping["runtime"]["indexes"]\<close>. The keys read with \<^verbatim>\<open>idx[...]\<close>
  are optional fields here, so that a missing key is the \<^verbatim>\<open>KeyError\<close> of the source;
  \<^verbatim>\<open>idx.get("unique", False)\<close> is the field \<open>idx_unique\<close>.
\<close>

record index_decl =
  idx_kind :: "string option"
  idx_label :: "string option"
  idx_type :: "string option"
  idx_properties :: "string list option"
  idx_unique :: bool

definition constraint_stmts :: "index_decl \<Rightarrow> exn + string list" where
  "constraint_stmts idx =
     (if idx_kind idx = Some ''constraint'' then
        (case item ''label'' (idx_label idx) of Inl e \<Rightarrow> Inl e | Inr label \<Rightarrow>
         case item ''properties'' (idx_properties idx) of Inl e \<Rightarrow> Inl e | Inr props \<Rightarrow>
         case first props of Inl e \<Rightarrow> Inl e | Inr p0 \<Rightarrow>
           if idx_unique idx
           then Inr [''CREATE CONSTRAINT IF NOT EXISTS FOR (n:`'' @ label
                      @ ''`) REQUIRE n.`'' @ p0 @ ''` IS UNIQUE;'']
           else Inr [''CREATE INDEX IF NOT EXISTS FOR (n:`'' @ label
                      @ ''`) ON (n.`'' @ p0 @ ''`);''])
      else if idx_kind idx = Some ''rel_index'' then
        (case item ''type'' (idx_type idx) of Inl e \<Rightarrow> Inl e | Inr rtype \<Rightarrow>
         case item ''properties'' (idx_properties idx) of Inl e \<Rightarrow> Inl e | Inr props \<Rightarrow>
         case first props of Inl e \<Rightarrow> Inl e | Inr p0 \<Rightarrow>
           Inr [''CREATE INDEX IF NOT EXISTS FOR ()-[r:`'' @ rtype
                 @ ''`]-() ON (r.`'' @ p0 @ ''`);''])
      else Inr [])"

fun build_constraint_cypher :: "index_decl list \<Rightarrow> exn + string list" where
  "build_constraint_cypher [] = Inr []"
| "build_constraint_cypher (idx # rest) =
     (case constraint_stmts idx of
        Inl e \<Rightarrow> Inl e
      | Inr stmts \<Rightarrow>
          (case build_constraint_cypher rest of
             Inl e \<Rightarrow> Inl e
           | Inr others \<Rightarrow> Inr (stmts @ others)))"

text \<open>The declaration with every property but the first one removed.\<close>

definition first_property_only :: "index_decl \<Rightarrow> index_decl" where
  "first_property_only idx = idx\<lparr>idx_properties := map_option (take 1) (idx_properties idx)\<rparr>"

subsection \<open>Python text helpers\<close>

text \<open>
  The code points for which \<^verbatim>\<open>str.isspace()\<close> holds; \<^verbatim>\<open>str.strip()\<close> removes them
  at both ends. U+FEFF is not one of them.
\<close>

definition py_isspace :: "nat \<Rightarrow> bool" where
  "py_isspace c \<longleftrightarrow>
     (9 \<le> c \<and> c \<le> 13) \<or> (28 \<le> c \<and> c \<le> 32) \<or> c = 0x85 \<or> c = 0xA0 \<or> c = 0x1680
     \<or> (0x2000 \<le> c \<and> c \<le> 0x200A) \<or> c = 0x2028 \<or> c = 0x2029 \<or> c = 0x202F
     \<or> c = 0x205F \<or> c = 0x3000"

definition lstrip_with :: "('a \<Rightarrow> bool) \<Rightarrow> 'a list \<Rightarrow> 'a list" where
  "lstrip_with P xs = dropWhile P xs"

definition rstrip_with :: "('a \<Rightarrow> bool) \<Rightarrow> 'a list \<Rightarrow> 'a list" where
  "rstrip_with P xs = rev (dropWhile P (rev xs))"

definition strip_with :: "('a \<Rightarrow> bool) \<Rightarrow> 'a list \<Rightarrow> 'a list" where
  "strip_with P xs = rstrip_with P (lstrip_with P xs)"

text \<open>\<^verbatim>\<open>s.strip()\<close> and \<^verbatim>\<open>s.lstrip(bom)\<close> on cell values.\<close>

definition py_strip :: "ustr \<Rightarrow> ustr" where
  "py_strip = strip_with py_isspace"

definition lstrip_bom :: "ustr \<Rightarrow> ustr" where
  "lstrip_bom = lstrip_with (\<lambda>c. c = BOM)"

text \<open>The raw string \<^verbatim>\<open>r"\N"\<close>: a backslash and the letter N.\<close>

definition SENTINEL :: ustr where
  "SENTINEL = [0x5C, 0x4E]"

text \<open>\<^verbatim>\<open>s.startswith(p)\<close>, \<^verbatim>\<open>os.path.basename(p)\<close>, \<^verbatim>\<open>s.replace("\n", t)\<close>.\<close>

definition startswith :: "string \<Rightarrow> string \<Rightarrow> bool" where
  "startswith s p \<longleftrightarrow> take (length p) s = p"

definition basename :: "string \<Rightarrow> string" where
  "basename p = rev (takeWhile (\<lambda>c. c \<noteq> CHR ''/'') (rev p))"

definition replace_newlines :: "string \<Rightarrow> string \<Rightarrow> string" where
  "replace_newlines t s = concat (map (\<lambda>c. if c = CHR 0x0A then t else [c]) s)"

text \<open>\<^verbatim>\<open>str(n)\<close> for an integer.\<close>

definition digit_char :: "nat \<Rightarrow> char" where
  "digit_char d = char_of (48 + d)"

function str_of_nat :: "nat \<Rightarrow> string" where
  "str_of_nat n = (if n < 10 then [digit_char n] else str_of_nat (n div 10) @ [digit_char (n mod 10)])"
  by pat_completeness auto
termination
  by (relation "measure id") auto

definition str_of_int :: "int \<Rightarrow> string" where
  "str_of_int i = (if i < 0 then ''-'' @ str_of_nat (nat (- i)) else str_of_nat (nat i))"

subsection \<open>The preflight scan for missing column values\<close>

text \<open>
  \<^verbatim>\<open>csv.DictReader\<close> on top of \<^verbatim>\<open>csv.reader\<close>. The reader itself (quoting, delimiters)
  is the library's: it is a parameter, a function from the text to its records (or to the
  exception it raises). The first
  record is the list of field names; empty records are skipped; a short record is padded
  with \<^verbatim>\<open>None\<close>, and of two fields with the same name the later one wins. \<open>row_get\<close>
  is \<^verbatim>\<open>row.get(col)\<close> for a string \<^verbatim>\<open>col\<close>, with \<open>None\<close> for Python's \<^verbatim>\<open>None\<close>.
\<close>

definition dict_row :: "ustr list \<Rightarrow> ustr list \<Rightarrow> (ustr \<times> ustr option) list" where
  "dict_row fieldnames row =
     zip fieldnames (map Some row @ replicate (length fieldnames - length row) None)"

definition row_get :: "ustr list \<Rightarrow> ustr list \<Rightarrow> ustr \<Rightarrow> ustr option" where
  "row_get fieldnames row col =
     (case map_of (rev (dict_row fieldnames row)) col of
        None \<Rightarrow> None
      | Some v \<Rightarrow> v)"

definition dict_reader_rows :: "ustr list list \<Rightarrow> ustr list list" where
  "dict_reader_rows records = filter (\<lambda>r. r \<noteq> []) (tl records)"

text \<open>The test of the loop body: \<^verbatim>\<open>v = (row.get(col) or "").strip().lstrip(bom)\<close>.\<close>

definition cell_missing :: "ustr option \<Rightarrow> bool" where
  "cell_missing cell =
     (let v = lstrip_bom (py_strip (case cell of None \<Rightarrow> [] | Some s \<Rightarrow> s))
      in v = [] \<or> v = SENTINEL)"

text \<open>
  \<open>lines\<close> is \<^verbatim>\<open>data.splitlines()\<close> of the downloaded text; the download itself is done
  by the caller's environment (see \<open>count_missing_col_in_csv\<close> below).
\<close>

definition count_missing_in_lines ::
  "(ustr \<Rightarrow> exn + ustr list list) \<Rightarrow> ustr list \<Rightarrow> ustr \<Rightarrow> exn + nat" where
  "count_missing_in_lines reader lines col =
     (case lines of
        [] \<Rightarrow> Inr 0
      | l0 # ls \<Rightarrow>
          (case reader (join [0x0A] (lstrip_bom l0 # ls)) of
             Inl e \<Rightarrow> Inl e
           | Inr records \<Rightarrow>
               (case records of
                  [] \<Rightarrow> Inr 0
                | fieldnames # _ \<Rightarrow>
                    Inr (length (filter (\<lambda>row. cell_missing (row_get fieldnames row col))
                                   (dict_reader_rows records))))))"

subsection \<open>The mapping document\<close>

text \<open>
  The mapping is a JSON object. Attributes the loader reads with \<^verbatim>\<open>d[key]\<close> from an
  object of the data model are record fields; attributes it reads with
  \<^verbatim>\<open>d.get(key, default)\<close> are optional fields or carry the default. A dictionary keyed
  by names of the mapping's own choice (\<^verbatim>\<open>nodes\<close>, \<^verbatim>\<open>relationships\<close>, \<^verbatim>\<open>mappings\<close>,
  \<^verbatim>\<open>properties\<close>) is an association list in the order of the document, with distinct keys.
\<close>

record field_spec =
  fs_column :: string
  fs_type :: "string option"
  fs_transform :: "string list"
  fs_nullable :: bool

record node_spec =
  ns_source :: string
  ns_label :: string
  ns_key :: "string list"
  ns_mappings :: "(string \<times> field_spec) list"

record endpoint =
  ep_label :: string
  ep_match_on :: "string list"

record rel_spec =
  rs_source :: string
  rs_type :: string
  rs_direction :: "string option"
  rs_from :: endpoint
  rs_to :: endpoint
  rs_properties :: "(string \<times> field_spec) list"

subsection \<open>The expression compiler\<close>

text \<open>
  The three string literals of the generated text: the byte-order mark
  \<^verbatim>\<open>'\uFEFF'\<close>, the empty string \<^verbatim>\<open>''\<close> and the sentinel \<^verbatim>\<open>'\\N'\<close> (in Cypher,
  a backslash followed by N).
\<close>

definition squote :: string where
  "squote = [CHR 0x27]"

definition lit_bom :: string where
  "lit_bom = squote @ bslash @ ''uFEFF'' @ squote"

definition lit_empty :: string where
  "lit_empty = squote @ squote"

definition lit_sentinel :: string where
  "lit_sentinel = squote @ bslash @ bslash @ ''N'' @ squote"

definition type_cast :: "string \<Rightarrow> field_spec \<Rightarrow> string" where
  "type_cast expr spec =
     (let t = (case fs_type spec of None \<Rightarrow> ''string'' | Some t \<Rightarrow> t);
          transforms = fs_transform spec;
          e = ''replace('' @ expr @ '', '' @ lit_bom @ '', '' @ lit_empty @ '')'';
          e = ''trim('' @ e @ '')'';
          e = ''CASE WHEN '' @ e @ '' = '' @ lit_sentinel @ '' THEN '' @ lit_empty
                @ '' ELSE '' @ e @ '' END'';
          e = (if ''lower'' \<in> set transforms then ''toLower('' @ e @ '')'' else e)
      in if t = ''int'' then ''toInteger('' @ e @ '')''
         else if t = ''float'' then ''toFloat('' @ e @ '')''
         else e)"

definition nullable_cast :: "string \<Rightarrow> field_spec \<Rightarrow> string" where
  "nullable_cast expr spec =
     (let base = type_cast expr spec;
          null_check = expr @ '' IS NULL OR '' @ expr @ '' = '' @ lit_empty @ '' OR '' @ expr
                         @ '' = '' @ lit_sentinel
      in if fs_nullable spec
         then ''CASE WHEN '' @ null_check @ '' THEN NULL ELSE '' @ base @ '' END''
         else base)"

subsection \<open>The statement builders\<close>

text \<open>The skip-guard for one source column, as both builders write it.\<close>

definition key_pred :: "string \<Rightarrow> string" where
  "key_pred col =
     ''(CASE WHEN replace(trim(row.`'' @ col @ ''`), '' @ lit_bom @ '','' @ lit_empty @ '') = ''
       @ lit_sentinel @ '' THEN '' @ lit_empty @ '' ELSE replace(trim(row.`'' @ col @ ''`), ''
       @ lit_bom @ '','' @ lit_empty @ '') END) <> '' @ lit_empty"

text \<open>\<^verbatim>\<open>[f(mappings[k]) for k in key_fields]\<close>: the first missing key raises.\<close>

fun lookup_all :: "(string \<times> 'a) list \<Rightarrow> string list \<Rightarrow> exn + (string \<times> 'a) list" where
  "lookup_all m [] = Inr []"
| "lookup_all m (k # ks) =
     (case map_of m k of
        None \<Rightarrow> Inl (KeyError k)
      | Some v \<Rightarrow>
          (case lookup_all m ks of
             Inl e \<Rightarrow> Inl e
           | Inr kvs \<Rightarrow> Inr ((k, v) # kvs)))"

definition node_setter :: "string list \<Rightarrow> string \<times> field_spec \<Rightarrow> string" where
  "node_setter key_fields ps =
     (case ps of (prop, spec) \<Rightarrow>
        if prop \<in> set key_fields
        then ''n.`'' @ prop @ ''` = '' @ type_cast (''row.'' @ fs_column spec) spec
        else ''n.`'' @ prop @ ''` = '' @ nullable_cast (''row.'' @ fs_column spec) spec)"

definition build_node_load_body :: "node_spec \<Rightarrow> exn + string" where
  "build_node_load_body node_spec =
     (let label = ns_label node_spec;
          mappings = ns_mappings node_spec;
          key_fields = ns_key node_spec
      in case lookup_all mappings key_fields of
           Inl e \<Rightarrow> Inl e
         | Inr keyed \<Rightarrow>
             (let key_cols = map (\<lambda>(k, spec). fs_column spec) keyed;
                  merge_on = join '', ''
                    (map (\<lambda>(k, spec). k @ '': '' @ type_cast (''row.'' @ fs_column spec) spec) keyed);
                  key_preds = join '' AND '' (map key_pred key_cols);
                  setters = map (node_setter key_fields) mappings
                    @ [''n.source_system = $source_system'',
                       ''n.ingest_batch  = $ingest_batch'',
                       ''n.ingested_at   = datetime()'']
              in Inr (''WITH row WHERE '' @ key_preds @ [CHR 0x0A]
                      @ ''MERGE (n:`'' @ label @ ''` { '' @ merge_on @ '' })'' @ [CHR 0x0A]
                      @ ''SET '' @ join '', '' setters)))"

text \<open>\<^verbatim>\<open>k.split(":")\<close>\<close>

fun split_on :: "'a \<Rightarrow> 'a list \<Rightarrow> 'a list list" where
  "split_on d [] = [[]]"
| "split_on d (c # cs) =
     (if c = d then [] # split_on d cs
      else (case split_on d cs of
              [] \<Rightarrow> [[c]]
            | w # ws \<Rightarrow> (c # w) # ws))"

text \<open>
  One entry of \<^verbatim>\<open>match_on\<close>: the source column and the target property. The unpacking
  \<^verbatim>\<open>src_col, target_prop = k.split(":")\<close> raises \<^verbatim>\<open>ValueError\<close> unless there are two parts.
\<close>

definition match_key :: "string \<Rightarrow> exn + (string \<times> string)" where
  "match_key k =
     (if CHR '':'' \<in> set k then
        (case split_on (CHR '':'') k of
           [src_col, target_prop] \<Rightarrow> Inr (src_col, target_prop)
         | _ \<Rightarrow> Inl ValueError)
      else Inr (k, k))"

fun match_keys :: "string list \<Rightarrow> exn + (string \<times> string) list" where
  "match_keys [] = Inr []"
| "match_keys (k # ks) =
     (case match_key k of
        Inl e \<Rightarrow> Inl e
      | Inr p \<Rightarrow>
          (case match_keys ks of
             Inl e \<Rightarrow> Inl e
           | Inr ps \<Rightarrow> Inr (p # ps)))"

definition match_part :: "string \<times> string \<Rightarrow> string" where
  "match_part p =
     (case p of (src_col, target_prop) \<Rightarrow>
        ''`'' @ target_prop @ ''`: toInteger(replace(trim(row.`'' @ src_col @ ''`), ''
          @ lit_bom @ '','' @ lit_empty @ ''))'')"

definition match_expr :: "string \<Rightarrow> endpoint \<Rightarrow> exn + string" where
  "match_expr role spec =
     (case match_keys (ep_match_on spec) of
        Inl e \<Rightarrow> Inl e
      | Inr ps \<Rightarrow>
          Inr (''(x_'' @ role @ '':`'' @ ep_label spec @ ''` { ''
               @ join '', '' (map match_part ps) @ '' })''))"

definition required_col :: "string \<Rightarrow> string" where
  "required_col k = (if CHR '':'' \<in> set k then hd (split_on (CHR '':'') k) else k)"

text \<open>\<^verbatim>\<open>s.upper()\<close>, used only to compare the direction with \<^verbatim>\<open>"OUT"\<close>.\<close>

definition upper_char :: "char \<Rightarrow> char" where
  "upper_char c =
     (if (97::nat) \<le> of_char c \<and> of_char c \<le> (122::nat)
      then char_of (of_char c - (32::nat)) else c)"

definition rel_setter :: "string \<times> field_spec \<Rightarrow> string" where
  "rel_setter ps =
     (case ps of (prop, spec) \<Rightarrow>
        ''r.`'' @ prop @ ''` = '' @ nullable_cast (''row.'' @ fs_column spec) spec)"

definition linkid_merge_key :: string where
  "linkid_merge_key = ''toInteger(replace(trim(row.`linkid`), '' @ lit_bom @ '','' @ lit_empty @ ''))''"

definition build_rel_load_body :: "rel_spec \<Rightarrow> exn + string" where
  "build_rel_load_body rel_spec =
     (let rtype = rs_type rel_spec;
          direction = map upper_char (case rs_direction rel_spec of None \<Rightarrow> ''OUT'' | Some d \<Rightarrow> d);
          from_spec = rs_from rel_spec;
          to_spec = rs_to rel_spec;
          props = rs_properties rel_spec;
          required_cols = map required_col (ep_match_on from_spec @ ep_match_on to_spec);
          has_linkid = (''linkid'' \<in> fst ` set props);
          linkid_guard = (if has_linkid then '' AND '' @ key_pred ''linkid'' else []);
          merge_rel_props = (if has_linkid then '' { linkid: '' @ linkid_merge_key @ '' }'' else []);
          key_preds = join '' AND '' (map key_pred required_cols) @ linkid_guard;
          pattern =
            (if direction = ''OUT''
             then ''(x_from)-[r:`'' @ rtype @ ''`'' @ merge_rel_props @ '']->(x_to)''
             else ''(x_to)-[r:`'' @ rtype @ ''`'' @ merge_rel_props @ '']->(x_from)'');
          setters = map rel_setter props
            @ [''r.source_system = $source_system'',
               ''r.ingest_batch  = $ingest_batch'',
               ''r.ingested_at   = datetime()'']
      in case match_expr ''from'' from_spec of
           Inl e \<Rightarrow> Inl e
         | Inr mfrom \<Rightarrow>
             (case match_expr ''to'' to_spec of
                Inl e \<Rightarrow> Inl e
              | Inr mto \<Rightarrow>
                  Inr (''WITH row WHERE '' @ key_preds @ [CHR 0x0A]
                       @ ''MATCH '' @ mfrom @ '', '' @ mto @ [CHR 0x0A]
                       @ ''MERGE '' @ pattern @ [CHR 0x0A]
                       @ ''SET '' @ join '', '' setters)))"

definition load_csv_batched :: "string \<Rightarrow> string \<Rightarrow> int \<Rightarrow> string" where
  "load_csv_batched url_param body rows =
     ''LOAD CSV WITH HEADERS FROM $'' @ url_param @ '' AS row'' @ [CHR 0x0A]
     @ ''CALL (row) {'' @ [CHR 0x0A]
     @ ''  '' @ replace_newlines ([CHR 0x0A] @ ''  '') body @ [CHR 0x0A]
     @ ''}''
     @ '' IN TRANSACTIONS OF '' @ str_of_int rows @ '' ROWS''"

subsection \<open>The collaborators of a run\<close>

text \<open>
  Values that cross the interface to the database driver: statement parameters and the
  fields of result rows. \<open>POther\<close> stands for every value that is neither \<^verbatim>\<open>None\<close>, a
  boolean, a number nor a string (lists, maps, graph entities).
\<close>

datatype pyval = PNone | PBool bool | PInt int | PFloat real | PStr string | POther

type_synonym params = "(string \<times> pyval) list"

type_synonym result_row = "(string \<times> pyval) list"

text \<open>
  The environment of a run: the database behind \<^verbatim>\<open>Neo.run\<close> (a state of type \<open>'db\<close>
  and a transition that returns the result rows or raises), the HTTP retrieval behind
  \<^verbatim>\<open>sha256_of_url\<close>, \<^verbatim>\<open>count_rows_of_url\<close> and \<^verbatim>\<open>count_missing_col_in_csv\<close>, the
  library functions \<^verbatim>\<open>csv.reader\<close> and \<^verbatim>\<open>urljoin\<close>, the clock, and the operator's
  answer at the prompt.
\<close>

record 'db env =
  db_run :: "'db \<Rightarrow> string \<Rightarrow> params \<Rightarrow> (exn + result_row list) \<times> 'db"
  sha256_hex :: "string \<Rightarrow> exn + string"
  line_count :: "string \<Rightarrow> exn + nat"
  text_lines :: "string \<Rightarrow> exn + ustr list"
  csv_reader :: "ustr \<Rightarrow> exn + ustr list list"
  urljoin :: "string \<Rightarrow> string \<Rightarrow> string"
  now_seconds :: int
  console_input :: string

record args =
  arg_password :: "string option"
  arg_base_url :: string
  arg_batch_id :: "string option"
  arg_verify_checksums :: bool
  arg_verify_rowcounts :: bool
  arg_strict_missing_linkid :: bool
  arg_preview_null_linkid :: bool
  arg_auto_yes_clean_null_linkid :: bool
  arg_preview_limit :: int
  arg_batch_rows :: int

record source =
  src_name :: string
  src_path :: string
  src_checksum_sha256 :: "string option"
  src_rows :: "int option"

record manifest_file =
  mf_name :: string
  mf_sha256 :: "string option"
  mf_rows :: "int option"

record promotion =
  pm_linkid :: int
  pm_type :: string

text \<open>
  \<open>mp_promote_named_edges\<close> is the list \<^verbatim>\<open>derived["map"]\<close>, or \<open>None\<close> when
  \<^verbatim>\<open>derived_relationships.promote_named_edges\<close> is absent or empty. \<open>mp_graph_assertions\<close>
  holds the \<^verbatim>\<open>cypher\<close> text of each assertion, \<open>mp_source_system\<close> the optional
  \<^verbatim>\<open>ingest_batch.attach_properties.source_system\<close>.
\<close>

record mapping =
  mp_version :: "string option"
  mp_sources :: "source list"
  mp_nodes :: "(string \<times> node_spec) list"
  mp_relationships :: "(string \<times> rel_spec) list"
  mp_promote_named_edges :: "promotion list option"
  mp_indexes :: "index_decl list"
  mp_source_system :: "string option"
  mp_graph_assertions :: "string list"
  mp_load_order :: "string list"

text \<open>How a run ends early: \<^verbatim>\<open>sys.exit(code)\<close> or an exception nobody catches.\<close>

datatype stop = Exit nat | Uncaught exn

definition is_url :: "string \<Rightarrow> bool" where
  "is_url p \<longleftrightarrow> startswith p ''http://'' \<or> startswith p ''https://''"

definition to_url :: "'db env \<Rightarrow> string \<Rightarrow> string \<Rightarrow> string" where
  "to_url env base_url path =
     (if is_url path then path
      else urljoin env (rstrip_with (\<lambda>c. c = CHR ''/'') base_url @ ''/'') (basename path))"

definition sha256_of_url :: "'db env \<Rightarrow> string \<Rightarrow> exn + string" where
  "sha256_of_url env url = sha256_hex env url"

definition count_rows_of_url :: "'db env \<Rightarrow> string \<Rightarrow> exn + int" where
  "count_rows_of_url env url =
     (case line_count env url of
        Inl e \<Rightarrow> Inl e
      | Inr lines \<Rightarrow> Inr (max 0 (int lines - 1)))"

definition count_missing_col_in_csv :: "'db env \<Rightarrow> string \<Rightarrow> ustr \<Rightarrow> exn + nat" where
  "count_missing_col_in_csv env url col =
     (case text_lines env url of
        Inl e \<Rightarrow> Inl e
      | Inr lines \<Rightarrow> count_missing_in_lines (csv_reader env) lines col)"

text \<open>\<^verbatim>\<open>Neo.run_void\<close>, and a \<^verbatim>\<open>for\<close> loop whose body may end the run.\<close>

definition run_void :: "'db env \<Rightarrow> string \<Rightarrow> params \<Rightarrow> 'db \<Rightarrow> stop option \<times> 'db" where
  "run_void env cypher ps db =
     (case db_run env db cypher ps of
        (Inl e, db') \<Rightarrow> (Some (Uncaught e), db')
      | (Inr rows, db') \<Rightarrow> (None, db'))"

fun for_each :: "('a \<Rightarrow> 'db \<Rightarrow> stop option \<times> 'db) \<Rightarrow> 'a list \<Rightarrow> 'db \<Rightarrow> stop option \<times> 'db" where
  "for_each body [] db = (None, db)"
| "for_each body (x # xs) db =
     (case body x db of
        (Some s, db') \<Rightarrow> (Some s, db')
      | (None, db') \<Rightarrow> for_each body xs db')"

subsection \<open>Derived-edge promotion\<close>

definition nl :: string where
  "nl = [CHR 0x0A]"

definition promote_cypher :: "string \<Rightarrow> string" where
  "promote_cypher rtype =
     ''MATCH (a:synset)-[r:SYNSET {linkid:$lid}]->(b:synset)'' @ nl
     @ ''MERGE (a)-[x:`'' @ rtype @ ''`]->(b)'' @ nl
     @ ''ON CREATE SET ''
     @ ''  x.source_system = coalesce(r.source_system, '' @ squote @ ''wordnet'' @ squote @ ''), ''
     @ ''  x.ingest_batch  = coalesce(r.ingest_batch,  '' @ squote @ ''derived'' @ squote @ ''), ''
     @ ''  x.ingested_at   = datetime()''"

definition promote_named_edges :: "'db env \<Rightarrow> mapping \<Rightarrow> 'db \<Rightarrow> stop option \<times> 'db" where
  "promote_named_edges env mp db =
     (case mp_promote_named_edges mp of
        None \<Rightarrow> (None, db)
      | Some derived_map \<Rightarrow>
          for_each (\<lambda>m. run_void env (promote_cypher (pm_type m)) [(''lid'', PInt (pm_linkid m))])
            derived_map db)"

subsection \<open>Preview and clean-up of relationships without a discriminator\<close>

definition count_bad_cypher :: string where
  "count_bad_cypher = ''MATCH ()-[r:SYNSET]->() WHERE r.linkid IS NULL RETURN count(r) AS n''"

definition sample_bad_cypher :: string where
  "sample_bad_cypher =
     nl
     @ ''            MATCH (a:synset)-[r:SYNSET]->(b:synset)''
     @ nl
     @ ''            WHERE r.linkid IS NULL''
     @ nl
     @ ''            RETURN elementId(r) AS rel_eid,''
     @ nl
     @ ''                   a.synsetid AS from_id, a.pos AS from_pos, left(a.definition, 120) AS from_def,''
     @ nl
     @ ''                   b.synsetid AS to_id,   b.pos AS to_pos,   left(b.definition, 120) AS to_def''
     @ nl
     @ ''            LIMIT $limit''
     @ nl
     @ ''            ''"

definition delete_bad_cypher :: string where
  "delete_bad_cypher =
     nl
     @ ''            MATCH ()-[r:SYNSET]->()''
     @ nl
     @ ''            WHERE r.linkid IS NULL''
     @ nl
     @ ''            WITH r LIMIT $chunk''
     @ nl
     @ ''            DELETE r''
     @ nl
     @ ''            RETURN count(*) AS c''
     @ nl
     @ ''            ''"

text \<open>
  The number behind a Python value, where it has one; arithmetic and ordering on anything
  else raise \<^verbatim>\<open>TypeError\<close>.
\<close>

definition py_number :: "pyval \<Rightarrow> real option" where
  "py_number v =
     (case v of
        PBool b \<Rightarrow> Some (if b then 1 else 0)
      | PInt i \<Rightarrow> Some (real_of_int i)
      | PFloat r \<Rightarrow> Some r
      | _ \<Rightarrow> None)"

text \<open>\<^verbatim>\<open>rows[0][key] if rows else 0\<close>\<close>

definition first_row_item :: "result_row list \<Rightarrow> string \<Rightarrow> exn + pyval" where
  "first_row_item rows key =
     (case rows of
        [] \<Rightarrow> Inr (PInt 0)
      | r # _ \<Rightarrow> item key (map_of r key))"

text \<open>
  \<open>list_bad_synset_rels\<close> returns the total and the sample. The sample is fetched only
  when \<^verbatim>\<open>total > 0\<close>.
\<close>

definition list_bad_synset_rels ::
  "'db env \<Rightarrow> int \<Rightarrow> 'db \<Rightarrow> (stop + (real \<times> result_row list)) \<times> 'db" where
  "list_bad_synset_rels env limit db =
     (case db_run env db count_bad_cypher [] of
        (Inl e, db1) \<Rightarrow> (Inl (Uncaught e), db1)
      | (Inr total_rows, db1) \<Rightarrow>
          (case first_row_item total_rows ''n'' of
             Inl e \<Rightarrow> (Inl (Uncaught e), db1)
           | Inr total_n \<Rightarrow>
               (case py_number total_n of
                  None \<Rightarrow> (Inl (Uncaught TypeError), db1)
                | Some t \<Rightarrow>
                    if t > 0 then
                      (case db_run env db1 sample_bad_cypher [(''limit'', PInt limit)] of
                         (Inl e, db2) \<Rightarrow> (Inl (Uncaught e), db2)
                       | (Inr sample, db2) \<Rightarrow> (Inr (t, sample), db2))
                    else (Inr (t, []), db1))))"

text \<open>
  \<open>clean_bad_synset_rels\<close>: at most \<open>max_loops\<close> rounds, each deleting one chunk; the
  loop ends with the first round that deletes nothing. The total it returns is only
  printed, so the model keeps the effect on the database and the exceptions.
\<close>

fun clean_bad_synset_rels :: "'db env \<Rightarrow> int \<Rightarrow> nat \<Rightarrow> 'db \<Rightarrow> stop option \<times> 'db" where
  "clean_bad_synset_rels env chunk 0 db = (None, db)"
| "clean_bad_synset_rels env chunk (Suc max_loops) db =
     (case db_run env db delete_bad_cypher [(''chunk'', PInt chunk)] of
        (Inl e, db') \<Rightarrow> (Some (Uncaught e), db')
      | (Inr rows, db') \<Rightarrow>
          (case first_row_item rows ''c'' of
             Inl e \<Rightarrow> (Some (Uncaught e), db')
           | Inr c \<Rightarrow>
               (case py_number c of
                  None \<Rightarrow> (Some (Uncaught TypeError), db')
                | Some n \<Rightarrow>
                    if n = 0 then (None, db')
                    else clean_bad_synset_rels env chunk max_loops db')))"

text \<open>The preview prints seven fields of every sample row; a missing one raises.\<close>

definition preview_fields :: "string list" where
  "preview_fields =
     [''rel_eid'', ''from_pos'', ''from_id'', ''from_def'', ''to_pos'', ''to_id'', ''to_def'']"

fun preview_rows :: "result_row list \<Rightarrow> exn option" where
  "preview_rows [] = None"
| "preview_rows (r # rs) =
     (case filter (\<lambda>k. map_of r k = None) preview_fields of
        k # _ \<Rightarrow> Some (KeyError k)
      | [] \<Rightarrow> preview_rows rs)"

definition isspace_char :: "char \<Rightarrow> bool" where
  "isspace_char c = py_isspace (of_char c)"

definition lower_char :: "char \<Rightarrow> char" where
  "lower_char c =
     (if (65::nat) \<le> of_char c \<and> of_char c \<le> (90::nat)
      then char_of (of_char c + (32::nat)) else c)"

definition preview_and_maybe_clean :: "'db env \<Rightarrow> bool \<Rightarrow> int \<Rightarrow> 'db \<Rightarrow> stop option \<times> 'db" where
  "preview_and_maybe_clean env auto_yes preview_limit db =
     (case list_bad_synset_rels env preview_limit db of
        (Inl s, db1) \<Rightarrow> (Some s, db1)
      | (Inr (total_n, sample), db1) \<Rightarrow>
          if total_n = 0 then (None, db1)
          else
            (case preview_rows sample of
               Some e \<Rightarrow> (Some (Uncaught e), db1)
             | None \<Rightarrow>
                 if auto_yes then clean_bad_synset_rels env 20000 1000 db1
                 else if map lower_char (strip_with isspace_char (console_input env)) = ''y''
                 then clean_bad_synset_rels env 20000 1000 db1
                 else (None, db1)))"

subsection \<open>The run\<close>

text \<open>
  The manifest annotates the sources: \<^verbatim>\<open>mani_index\<close> maps a file name to its manifest
  entry (the last entry of a name wins), and a source whose base name is in the index
  takes the entry's checksum and row count.
\<close>

definition mani_index :: "manifest_file list \<Rightarrow> string \<Rightarrow> manifest_file option" where
  "mani_index files = map_of (rev (map (\<lambda>f. (mf_name f, f)) files))"

definition annotate_source :: "manifest_file list \<Rightarrow> source \<Rightarrow> source" where
  "annotate_source files s =
     (case mani_index files (basename (src_path s)) of
        None \<Rightarrow> s
      | Some f \<Rightarrow> s\<lparr>src_checksum_sha256 := mf_sha256 f, src_rows := mf_rows f\<rparr>)"

definition make_batch_id :: "'db env \<Rightarrow> args \<Rightarrow> mapping \<Rightarrow> string" where
  "make_batch_id env a mp =
     (case arg_batch_id a of
        Some b \<Rightarrow>
          if b \<noteq> [] then b
          else (case mp_version mp of None \<Rightarrow> ''v'' | Some v \<Rightarrow> v) @ ''-'' @ str_of_int (now_seconds env)
      | None \<Rightarrow>
          (case mp_version mp of None \<Rightarrow> ''v'' | Some v \<Rightarrow> v) @ ''-'' @ str_of_int (now_seconds env))"

text \<open>The constraint and index statements are sent first.\<close>

definition run_constraints :: "'db env \<Rightarrow> mapping \<Rightarrow> 'db \<Rightarrow> stop option \<times> 'db" where
  "run_constraints env mp db =
     (case build_constraint_cypher (mp_indexes mp) of
        Inl e \<Rightarrow> (Some (Uncaught e), db)
      | Inr stmts \<Rightarrow> for_each (\<lambda>stmt. run_void env stmt []) stmts db)"

text \<open>
  Preflight of one source: the checksum, then the row count, then (for the source named
  \<^verbatim>\<open>semlinkref\<close>) the scan for missing \<^verbatim>\<open>linkid\<close> values, whose own exceptions are
  caught and reported as a warning. None of these touches the database.
\<close>

definition LINKID :: ustr where
  "LINKID = map of_char ''linkid''"

definition check_checksum :: "'db env \<Rightarrow> args \<Rightarrow> source \<Rightarrow> string \<Rightarrow> stop option" where
  "check_checksum env a src url =
     (case src_checksum_sha256 src of
        None \<Rightarrow> None
      | Some expected \<Rightarrow>
          if arg_verify_checksums a \<and> expected \<noteq> [] then
            (case sha256_of_url env url of
               Inl e \<Rightarrow> Some (Uncaught e)
             | Inr h \<Rightarrow> if h \<noteq> expected then Some (Exit 3) else None)
          else None)"

definition check_rowcount :: "'db env \<Rightarrow> args \<Rightarrow> source \<Rightarrow> string \<Rightarrow> stop option" where
  "check_rowcount env a src url =
     (case src_rows src of
        None \<Rightarrow> None
      | Some expected \<Rightarrow>
          if arg_verify_rowcounts a then
            (case count_rows_of_url env url of
               Inl e \<Rightarrow> Some (Uncaught e)
             | Inr n \<Rightarrow> if n \<noteq> expected then Some (Exit 4) else None)
          else None)"

definition check_missing_linkid :: "'db env \<Rightarrow> args \<Rightarrow> source \<Rightarrow> string \<Rightarrow> stop option" where
  "check_missing_linkid env a src url =
     (if src_name src = ''semlinkref'' then
        (case count_missing_col_in_csv env url LINKID of
           Inl e \<Rightarrow> None
         | Inr missing \<Rightarrow>
             if missing > 0 \<and> arg_strict_missing_linkid a then Some (Exit 6) else None)
      else None)"

definition preflight_source :: "'db env \<Rightarrow> args \<Rightarrow> source \<Rightarrow> stop option" where
  "preflight_source env a src =
     (let url = to_url env (arg_base_url a) (src_path src)
      in case check_checksum env a src url of
           Some s \<Rightarrow> Some s
         | None \<Rightarrow>
             (case check_rowcount env a src url of
                Some s \<Rightarrow> Some s
              | None \<Rightarrow> check_missing_linkid env a src url))"

fun first_stop :: "('a \<Rightarrow> stop option) \<Rightarrow> 'a list \<Rightarrow> stop option" where
  "first_stop f [] = None"
| "first_stop f (x # xs) = (case f x of Some s \<Rightarrow> Some s | None \<Rightarrow> first_stop f xs)"

definition preflight :: "'db env \<Rightarrow> args \<Rightarrow> source list \<Rightarrow> stop option" where
  "preflight env a sources =
     (if arg_verify_checksums a \<or> arg_verify_rowcounts a \<or> arg_strict_missing_linkid a
      then first_stop (preflight_source env a) sources
      else None)"

text \<open>The entries of \<^verbatim>\<open>load_order\<close>.\<close>

definition url_for_source_name :: "'db env \<Rightarrow> args \<Rightarrow> source list \<Rightarrow> string \<Rightarrow> exn + string" where
  "url_for_source_name env a sources name =
     (case find (\<lambda>s. src_name s = name) sources of
        None \<Rightarrow> Inl (RuntimeError name)
      | Some src \<Rightarrow> Inr (to_url env (arg_base_url a) (src_path src)))"

definition load_nodes ::
  "'db env \<Rightarrow> args \<Rightarrow> mapping \<Rightarrow> params \<Rightarrow> string \<Rightarrow> 'db \<Rightarrow> stop option \<times> 'db" where
  "load_nodes env a mp params_common key db =
     (case map_of (mp_nodes mp) key of
        None \<Rightarrow> (Some (Uncaught (KeyError key)), db)
      | Some spec \<Rightarrow>
          (case url_for_source_name env a (mp_sources mp) (ns_source spec) of
             Inl e \<Rightarrow> (Some (Uncaught e), db)
           | Inr url \<Rightarrow>
               (case build_node_load_body spec of
                  Inl e \<Rightarrow> (Some (Uncaught e), db)
                | Inr body \<Rightarrow>
                    run_void env (load_csv_batched ''url'' body (arg_batch_rows a))
                      (params_common @ [(''url'', PStr url)]) db)))"

definition load_rels ::
  "'db env \<Rightarrow> args \<Rightarrow> mapping \<Rightarrow> params \<Rightarrow> string \<Rightarrow> 'db \<Rightarrow> stop option \<times> 'db" where
  "load_rels env a mp params_common key db =
     (case map_of (mp_relationships mp) key of
        None \<Rightarrow> (Some (Uncaught (KeyError key)), db)
      | Some spec \<Rightarrow>
          (case url_for_source_name env a (mp_sources mp) (rs_source spec) of
             Inl e \<Rightarrow> (Some (Uncaught e), db)
           | Inr url \<Rightarrow>
               (case build_rel_load_body spec of
                  Inl e \<Rightarrow> (Some (Uncaught e), db)
                | Inr body \<Rightarrow>
                    (case run_void env (load_csv_batched ''url'' body (arg_batch_rows a))
                            (params_common @ [(''url'', PStr url)]) db of
                       (Some s, db') \<Rightarrow> (Some s, db')
                     | (None, db') \<Rightarrow>
                         if key = ''semantic_SYNSET'' then
                           (if arg_auto_yes_clean_null_linkid a
                            then preview_and_maybe_clean env True (arg_preview_limit a) db'
                            else if arg_preview_null_linkid a
                            then preview_and_maybe_clean env False (arg_preview_limit a) db'
                            else (None, db'))
                         else (None, db')))))"

text \<open>
  \<^verbatim>\<open>item.split(".", 1)[1]\<close> of an entry that starts with the prefix is the rest after the
  prefix, since the prefix holds the entry's first dot.
\<close>

definition load_item ::
  "'db env \<Rightarrow> args \<Rightarrow> mapping \<Rightarrow> params \<Rightarrow> string \<Rightarrow> 'db \<Rightarrow> stop option \<times> 'db" where
  "load_item env a mp params_common entry db =
     (if startswith entry ''nodes.''
      then load_nodes env a mp params_common (drop (length ''nodes.'') entry) db
      else if startswith entry ''relationships.''
      then load_rels env a mp params_common (drop (length ''relationships.'') entry) db
      else if startswith entry ''derived_relationships.''
      then promote_named_edges env mp db
      else (None, db))"

text \<open>The validations after the load.\<close>

datatype verdict = ValidationOK | ValidationFailed | ValidationReported

text \<open>\<^verbatim>\<open>ok is True or ok == 1\<close>\<close>

definition ok_value :: "pyval \<Rightarrow> bool" where
  "ok_value ok \<longleftrightarrow> ok = PBool True \<or> py_number ok = Some 1"

definition assertion_verdict :: "result_row list \<Rightarrow> verdict" where
  "assertion_verdict rows =
     (case rows of
        [] \<Rightarrow> ValidationReported
      | r # _ \<Rightarrow>
          (case map_of r ''ok'' of
             None \<Rightarrow> ValidationReported
           | Some ok \<Rightarrow> if ok_value ok then ValidationOK else ValidationFailed))"

definition run_assertion :: "'db env \<Rightarrow> string \<Rightarrow> 'db \<Rightarrow> stop option \<times> 'db" where
  "run_assertion env cypher db =
     (case db_run env db cypher [] of
        (Inl e, db') \<Rightarrow> (Some (Uncaught e), db')
      | (Inr rows, db') \<Rightarrow>
          (if assertion_verdict rows = ValidationFailed then Some (Exit 5) else None, db'))"

text \<open>
  \<open>main\<close>, after the command line is parsed and the two JSON documents are read. The
  result is how the run ended (\<open>None\<close>: it ran to its last line) and the database it
  left behind.
\<close>

definition main ::
  "'db env \<Rightarrow> args \<Rightarrow> mapping \<Rightarrow> manifest_file list \<Rightarrow> 'db \<Rightarrow> stop option \<times> 'db" where
  "main env a mapping0 manifest db =
     (if arg_password a = None \<or> arg_password a = Some [] then (Some (Exit 2), db)
      else
        (let mp = mapping0\<lparr>mp_sources := map (annotate_source manifest) (mp_sources mapping0)\<rparr>;
             batch_id = make_batch_id env a mp
         in case run_constraints env mp db of
              (Some s, db1) \<Rightarrow> (Some s, db1)
            | (None, db1) \<Rightarrow>
                (case preflight env a (mp_sources mp) of
                   Some s \<Rightarrow> (Some s, db1)
                 | None \<Rightarrow>
                     (let params_common =
                            [(''source_system'',
                              PStr (case mp_source_system mp of None \<Rightarrow> ''wordnet'' | Some s \<Rightarrow> s)),
                             (''ingest_batch'', PStr batch_id)]
                      in case for_each (load_item env a mp params_common) (mp_load_order mp) db1 of
                           (Some s, db2) \<Rightarrow> (Some s, db2)
                         | (None, db2) \<Rightarrow>
                             for_each (run_assertion env) (mp_graph_assertions mp) db2))))"

subsection \<open>A recording environment for concrete runs\<close>

text \<open>
  For runs on concrete inputs: a database that records the statements it is sent and
  answers every query with the rows \<open>answer\<close> gives, a retrieval layer that serves one
  text for every URL and reports the checksum \<open>digest\<close>, and a reader for comma-separated
  text without quoting.
\<close>

definition ustr_of :: "string \<Rightarrow> ustr" where
  "ustr_of s = map of_char s"

definition plain_reader :: "ustr \<Rightarrow> exn + ustr list list" where
  "plain_reader text =
     Inr (if text = [] then [] else map (\<lambda>l. if l = [] then [] else split_on 0x2C l) (split_on 0x0A text))"

definition recording_env ::
  "(string \<Rightarrow> result_row list) \<Rightarrow> string \<Rightarrow> ustr list \<Rightarrow> (string list) env" where
  "recording_env answer digest lines =
     \<lparr>db_run = (\<lambda>db cypher ps. (Inr (answer cypher), db @ [cypher])),
      sha256_hex = (\<lambda>url. Inr digest),
      line_count = (\<lambda>url. Inr (length lines)),
      text_lines = (\<lambda>url. Inr lines),
      csv_reader = plain_reader,
      urljoin = (\<lambda>base path. base @ path),
      now_seconds = 0,
      console_input = []\<rparr>"

definition plain_args :: args where
  "plain_args =
     \<lparr>arg_password = Some ''secret'',
      arg_base_url = ''https://example.org/data'',
      arg_batch_id = Some ''b1'',
      arg_verify_checksums = False,
      arg_verify_rowcounts = False,
      arg_strict_missing_linkid = False,
      arg_preview_null_linkid = False,
      arg_auto_yes_clean_null_linkid = False,
      arg_preview_limit = 50,
      arg_batch_rows = 10000\<rparr>"

definition empty_mapping :: mapping where
  "empty_mapping =
     \<lparr>mp_version = None,
      mp_sources = [],
      mp_nodes = [],
      mp_relationships = [],
      mp_promote_named_edges = None,
      mp_indexes = [],
      mp_source_system = None,
      mp_graph_assertions = [],
      mp_load_order = []\<rparr>"



text \<open>
  A mapping with one source, one node specification and one uniqueness constraint; its
  \<^verbatim>\<open>load_order\<close> names the node specification and an entry that resolves to nothing.
\<close>

definition synsets_source :: source where
  "synsets_source =
     \<lparr>src_name = ''synsets'', src_path = ''synsets.csv'',
      src_checksum_sha256 = Some ''abc123'', src_rows = None\<rparr>"

definition synset_spec :: node_spec where
  "synset_spec =
     \<lparr>ns_source = ''synsets'', ns_label = ''synset'', ns_key = [''synsetid''],
      ns_mappings =
        [(''synsetid'',
          \<lparr>fs_column = ''synsetid'', fs_type = Some ''int'', fs_transform = [],
           fs_nullable = False\<rparr>)]\<rparr>"

definition synset_constraint :: index_decl where
  "synset_constraint =
     \<lparr>idx_kind = Some ''constraint'', idx_label = Some ''synset'', idx_type = None,
      idx_properties = Some [''synsetid''], idx_unique = True\<rparr>"

definition small_mapping :: mapping where
  "small_mapping =
     empty_mapping\<lparr>mp_sources := [synsets_source],
                   mp_nodes := [(''synset'', synset_spec)],
                   mp_indexes := [synset_constraint],
                   mp_load_order := [''nodes.synset'', ''bogus'']\<rparr>"

text \<open>Whether an entry of \<^verbatim>\<open>load_order\<close> names a specification of the mapping.\<close>

definition resolves :: "mapping \<Rightarrow> string \<Rightarrow> bool" where
  "resolves mp entry \<longleftrightarrow>
     (startswith entry ''nodes.'' \<and> map_of (mp_nodes mp) (drop (length ''nodes.'') entry) \<noteq> None)
     \<or> (startswith entry ''relationships.''
         \<and> map_of (mp_relationships mp) (drop (length ''relationships.'') entry) \<noteq> None)
     \<or> (startswith entry ''derived_relationships.'' \<and> mp_promote_named_edges mp \<noteq> None)"

section \<open>The generated statements and what they do\<close>

text \<open>
  The builders return text. To say what a generated statement does to a row and to the
  graph, the text is given a structure (the expressions and clauses the builders put
  together, with a renderer that gives back the builders' text, see the lemmas
  \<open>render_type_cast\<close> to \<open>render_rel_body\<close>) and the structure is given the meaning the query
  language gives it: three-valued logic with \<^verbatim>\<open>null\<close>, \<^verbatim>\<open>CASE\<close> taking its \<^verbatim>\<open>ELSE\<close>
  branch unless the condition is true, \<^verbatim>\<open>WHERE\<close> keeping a row only when the condition is
  true, \<^verbatim>\<open>MERGE\<close> matching the whole pattern or creating it, and \<^verbatim>\<open>SET p = null\<close> removing
  the property.
\<close>

subsection \<open>Expressions\<close>

text \<open>
  String expressions, conditions and property values. \<open>StripBom\<close> is
  \<^verbatim>\<open>replace(e, '\uFEFF', '')\<close>; its flag tells the two spellings apart (a blank before the
  third argument or not). \<open>Col\<close> is \<^verbatim>\<open>row.c\<close> and \<open>ColQ\<close> is the quoted \<^verbatim>\<open>row.`c`\<close>; both
  read column \<open>c\<close> of the row. \<open>NullCase c v\<close> is \<^verbatim>\<open>CASE WHEN c THEN NULL ELSE v END\<close>.
\<close>

datatype sexpr =
    Col string
  | ColQ string
  | EmptyLit
  | SentinelLit
  | StripBom bool sexpr
  | Trim sexpr
  | Case cond sexpr sexpr
  | ToLower sexpr
  | Paren sexpr
and cond =
    Eq sexpr sexpr
  | Neq sexpr sexpr
  | IsNull sexpr
  | Or cond cond

datatype vexpr =
    StrVal sexpr
  | ToInteger sexpr
  | ToFloat sexpr
  | NullCase cond vexpr

fun render_sexpr :: "sexpr \<Rightarrow> string"
  and render_cond :: "cond \<Rightarrow> string" where
  "render_sexpr (Col c) = ''row.'' @ c"
| "render_sexpr (ColQ c) = ''row.`'' @ c @ ''`''"
| "render_sexpr EmptyLit = lit_empty"
| "render_sexpr SentinelLit = lit_sentinel"
| "render_sexpr (StripBom wide e) =
     ''replace('' @ render_sexpr e @ '', '' @ lit_bom @ (if wide then '', '' else '','')
       @ lit_empty @ '')''"
| "render_sexpr (Trim e) = ''trim('' @ render_sexpr e @ '')''"
| "render_sexpr (Case c a b) =
     ''CASE WHEN '' @ render_cond c @ '' THEN '' @ render_sexpr a @ '' ELSE ''
       @ render_sexpr b @ '' END''"
| "render_sexpr (ToLower e) = ''toLower('' @ render_sexpr e @ '')''"
| "render_sexpr (Paren e) = ''('' @ render_sexpr e @ '')''"
| "render_cond (Eq a b) = render_sexpr a @ '' = '' @ render_sexpr b"
| "render_cond (Neq a b) = render_sexpr a @ '' <> '' @ render_sexpr b"
| "render_cond (IsNull a) = render_sexpr a @ '' IS NULL''"
| "render_cond (Or c d) = render_cond c @ '' OR '' @ render_cond d"

fun render_vexpr :: "vexpr \<Rightarrow> string" where
  "render_vexpr (StrVal e) = render_sexpr e"
| "render_vexpr (ToInteger e) = ''toInteger('' @ render_sexpr e @ '')''"
| "render_vexpr (ToFloat e) = ''toFloat('' @ render_sexpr e @ '')''"
| "render_vexpr (NullCase c v) =
     ''CASE WHEN '' @ render_cond c @ '' THEN NULL ELSE '' @ render_vexpr v @ '' END''"

text \<open>The expression compiler again, building the structure instead of the text.\<close>

definition type_cast_expr :: "sexpr \<Rightarrow> field_spec \<Rightarrow> vexpr" where
  "type_cast_expr expr spec =
     (let t = (case fs_type spec of None \<Rightarrow> ''string'' | Some t \<Rightarrow> t);
          transforms = fs_transform spec;
          e = StripBom True expr;
          e = Trim e;
          e = Case (Eq e SentinelLit) EmptyLit e;
          e = (if ''lower'' \<in> set transforms then ToLower e else e)
      in if t = ''int'' then ToInteger e
         else if t = ''float'' then ToFloat e
         else StrVal e)"

definition nullable_cast_expr :: "sexpr \<Rightarrow> field_spec \<Rightarrow> vexpr" where
  "nullable_cast_expr expr spec =
     (let base = type_cast_expr expr spec;
          null_check = Or (IsNull expr) (Or (Eq expr EmptyLit) (Eq expr SentinelLit))
      in if fs_nullable spec then NullCase null_check base else base)"

definition key_pred_cond :: "string \<Rightarrow> cond" where
  "key_pred_cond col =
     Neq (Paren (Case (Eq (StripBom False (Trim (ColQ col))) SentinelLit) EmptyLit
                   (StripBom False (Trim (ColQ col)))))
         EmptyLit"

definition linkid_key_expr :: vexpr where
  "linkid_key_expr = ToInteger (StripBom False (Trim (ColQ ''linkid'')))"

subsection \<open>Values and evaluation\<close>

text \<open>
  A row of \<^verbatim>\<open>LOAD CSV WITH HEADERS\<close> maps a column to its text, or to \<^verbatim>\<open>null\<close> (\<open>None\<close>)
  when the column is absent or the field is empty. Property values are \<^verbatim>\<open>null\<close>, strings,
  integers, floats and instants.
\<close>

type_synonym row = "string \<Rightarrow> ustr option"

datatype cval = CNull | CStr ustr | CInt int | CFloat real | CDateTime int

text \<open>
  What the engine brings along: the parsers behind \<^verbatim>\<open>toInteger\<close> and \<^verbatim>\<open>toFloat\<close>
  (\<open>None\<close>: the text is not a number, the result is \<^verbatim>\<open>null\<close>), the case mapping behind
  \<^verbatim>\<open>toLower\<close>, and the clock behind \<^verbatim>\<open>datetime()\<close>.
\<close>

record engine =
  to_integer :: "ustr \<Rightarrow> int option"
  to_float :: "ustr \<Rightarrow> real option"
  to_lower :: "ustr \<Rightarrow> ustr"
  clock :: int

text \<open>
  \<^verbatim>\<open>trim\<close> removes whitespace at both ends: the code points of the engine's whitespace
  test (tab to carriage return, the separators U+001C to U+001F, the space, and the
  Unicode space separators but the no-break ones). U+FEFF is a format character, not
  whitespace, which is why the generated text removes it with \<^verbatim>\<open>replace\<close>.
\<close>

definition cy_isspace :: "nat \<Rightarrow> bool" where
  "cy_isspace c \<longleftrightarrow>
     (9 \<le> c \<and> c \<le> 13) \<or> (28 \<le> c \<and> c \<le> 32) \<or> c = 0x1680
     \<or> (0x2000 \<le> c \<and> c \<le> 0x2006) \<or> (0x2008 \<le> c \<and> c \<le> 0x200A)
     \<or> c = 0x2028 \<or> c = 0x2029 \<or> c = 0x205F \<or> c = 0x3000"

definition cy_trim :: "ustr \<Rightarrow> ustr" where
  "cy_trim = strip_with cy_isspace"

definition strip_bom :: "ustr \<Rightarrow> ustr" where
  "strip_bom s = filter (\<lambda>c. c \<noteq> BOM) s"

text \<open>The connectives on truth values with \<^verbatim>\<open>null\<close> (\<open>None\<close>).\<close>

definition eq3 :: "ustr option \<Rightarrow> ustr option \<Rightarrow> bool option" where
  "eq3 a b = (case a of None \<Rightarrow> None | Some x \<Rightarrow> (case b of None \<Rightarrow> None | Some y \<Rightarrow> Some (x = y)))"

definition or3 :: "bool option \<Rightarrow> bool option \<Rightarrow> bool option" where
  "or3 a b =
     (if a = Some True \<or> b = Some True then Some True
      else if a = None \<or> b = None then None
      else Some False)"

fun eval_sexpr :: "engine \<Rightarrow> row \<Rightarrow> sexpr \<Rightarrow> ustr option"
  and eval_cond :: "engine \<Rightarrow> row \<Rightarrow> cond \<Rightarrow> bool option" where
  "eval_sexpr eng r (Col c) = r c"
| "eval_sexpr eng r (ColQ c) = r c"
| "eval_sexpr eng r EmptyLit = Some []"
| "eval_sexpr eng r SentinelLit = Some SENTINEL"
| "eval_sexpr eng r (StripBom wide e) = map_option strip_bom (eval_sexpr eng r e)"
| "eval_sexpr eng r (Trim e) = map_option cy_trim (eval_sexpr eng r e)"
| "eval_sexpr eng r (Case c a b) =
     (if eval_cond eng r c = Some True then eval_sexpr eng r a else eval_sexpr eng r b)"
| "eval_sexpr eng r (ToLower e) = map_option (to_lower eng) (eval_sexpr eng r e)"
| "eval_sexpr eng r (Paren e) = eval_sexpr eng r e"
| "eval_cond eng r (Eq a b) = eq3 (eval_sexpr eng r a) (eval_sexpr eng r b)"
| "eval_cond eng r (Neq a b) = map_option Not (eq3 (eval_sexpr eng r a) (eval_sexpr eng r b))"
| "eval_cond eng r (IsNull a) = Some (eval_sexpr eng r a = None)"
| "eval_cond eng r (Or c d) = or3 (eval_cond eng r c) (eval_cond eng r d)"

definition number_or_null :: "('a \<Rightarrow> cval) \<Rightarrow> 'a option \<Rightarrow> cval" where
  "number_or_null mk n = (case n of None \<Rightarrow> CNull | Some x \<Rightarrow> mk x)"

fun eval_vexpr :: "engine \<Rightarrow> row \<Rightarrow> vexpr \<Rightarrow> cval" where
  "eval_vexpr eng r (StrVal e) = (case eval_sexpr eng r e of None \<Rightarrow> CNull | Some s \<Rightarrow> CStr s)"
| "eval_vexpr eng r (ToInteger e) =
     (case eval_sexpr eng r e of None \<Rightarrow> CNull | Some s \<Rightarrow> number_or_null CInt (to_integer eng s))"
| "eval_vexpr eng r (ToFloat e) =
     (case eval_sexpr eng r e of None \<Rightarrow> CNull | Some s \<Rightarrow> number_or_null CFloat (to_float eng s))"
| "eval_vexpr eng r (NullCase c v) =
     (if eval_cond eng r c = Some True then CNull else eval_vexpr eng r v)"

text \<open>
  An engine for runs on concrete rows: \<^verbatim>\<open>toInteger\<close> and \<^verbatim>\<open>toFloat\<close> read plain decimal
  numerals (and give \<^verbatim>\<open>null\<close> for every other text), \<^verbatim>\<open>toLower\<close> maps the ASCII capital
  letters.
\<close>

definition parse_decimal :: "ustr \<Rightarrow> int option" where
  "parse_decimal s =
     (if s \<noteq> [] \<and> list_all (\<lambda>c. 48 \<le> c \<and> c \<le> 57) s
      then Some (foldl (\<lambda>a c. 10 * a + int (c - 48)) 0 s)
      else None)"

definition plain_engine :: engine where
  "plain_engine =
     \<lparr>to_integer = parse_decimal,
      to_float = (\<lambda>s. map_option real_of_int (parse_decimal s)),
      to_lower = map (\<lambda>c. if 65 \<le> c \<and> c \<le> 90 then c + 32 else c),
      clock = 0\<rparr>"

text \<open>A value that the normalisation of the compiler turns into the empty string.\<close>

definition normalises_to_empty :: "ustr \<Rightarrow> bool" where
  "normalises_to_empty s \<longleftrightarrow> cy_trim (strip_bom s) = [] \<or> cy_trim (strip_bom s) = SENTINEL"

text \<open>Two field specifications: a nullable string and a required integer.\<close>

definition pos_spec :: field_spec where
  "pos_spec = \<lparr>fs_column = ''pos'', fs_type = None, fs_transform = [], fs_nullable = True\<rparr>"

definition num_spec :: field_spec where
  "num_spec = \<lparr>fs_column = ''n'', fs_type = Some ''int'', fs_transform = [], fs_nullable = False\<rparr>"

subsection \<open>The graph\<close>

text \<open>
  A property map gives every property name its value, \<^verbatim>\<open>null\<close> for a property the entity
  does not have. Nodes are identified by their position in the list of nodes.
\<close>

type_synonym props = "string \<Rightarrow> cval"

record node =
  n_labels :: "string list"
  n_props :: props

record edge =
  e_src :: nat
  e_dst :: nat
  e_type :: string
  e_props :: props

record graph =
  g_nodes :: "node list"
  g_edges :: "edge list"

text \<open>
  Equality of property values as a pattern \<^verbatim>\<open>{p: v}\<close> tests it: \<^verbatim>\<open>null\<close> equals nothing,
  an integer equals the float of the same value, values of different kinds differ.
\<close>

fun cy_eq :: "cval \<Rightarrow> cval \<Rightarrow> bool" where
  "cy_eq CNull _ = False"
| "cy_eq _ CNull = False"
| "cy_eq (CInt i) (CFloat x) = (real_of_int i = x)"
| "cy_eq (CFloat x) (CInt i) = (x = real_of_int i)"
| "cy_eq a b = (a = b)"

definition has_props :: "props \<Rightarrow> (string \<times> cval) list \<Rightarrow> bool" where
  "has_props ps kvs = list_all (\<lambda>(k, v). cy_eq (ps k) v) kvs"

definition node_matches :: "string \<Rightarrow> (string \<times> cval) list \<Rightarrow> node \<Rightarrow> bool" where
  "node_matches label kvs n \<longleftrightarrow> label \<in> set (n_labels n) \<and> has_props (n_props n) kvs"

text \<open>\<^verbatim>\<open>SET\<close> assigns from left to right; the provenance stamps come last.\<close>

definition assign_all :: "(string \<times> cval) list \<Rightarrow> props \<Rightarrow> props" where
  "assign_all kvs ps = foldl (\<lambda>q (k, v). q(k := v)) ps kvs"

record stamps =
  st_source_system :: cval
  st_ingest_batch :: cval

definition stamp :: "engine \<Rightarrow> stamps \<Rightarrow> props \<Rightarrow> props" where
  "stamp eng st ps =
     ps(''source_system'' := st_source_system st,
        ''ingest_batch'' := st_ingest_batch st,
        ''ingested_at'' := CDateTime (clock eng))"

definition no_props :: props where
  "no_props = (\<lambda>k. CNull)"

subsection \<open>The node load body\<close>

record node_body =
  nb_guards :: "cond list"
  nb_label :: string
  nb_merge_on :: "(string \<times> vexpr) list"
  nb_setters :: "(string \<times> vexpr) list"

definition node_setter_expr :: "string list \<Rightarrow> string \<times> field_spec \<Rightarrow> string \<times> vexpr" where
  "node_setter_expr key_fields ps =
     (case ps of (prop, spec) \<Rightarrow>
        if prop \<in> set key_fields
        then (prop, type_cast_expr (Col (fs_column spec)) spec)
        else (prop, nullable_cast_expr (Col (fs_column spec)) spec))"

definition node_body_of :: "node_spec \<Rightarrow> exn + node_body" where
  "node_body_of node_spec =
     (case lookup_all (ns_mappings node_spec) (ns_key node_spec) of
        Inl e \<Rightarrow> Inl e
      | Inr keyed \<Rightarrow>
          Inr \<lparr>nb_guards = map (\<lambda>(k, spec). key_pred_cond (fs_column spec)) keyed,
               nb_label = ns_label node_spec,
               nb_merge_on = map (\<lambda>(k, spec). (k, type_cast_expr (Col (fs_column spec)) spec)) keyed,
               nb_setters = map (node_setter_expr (ns_key node_spec)) (ns_mappings node_spec)\<rparr>)"

definition render_entry :: "string \<times> vexpr \<Rightarrow> string" where
  "render_entry kv = (case kv of (k, v) \<Rightarrow> k @ '': '' @ render_vexpr v)"

definition render_quoted_entry :: "string \<times> vexpr \<Rightarrow> string" where
  "render_quoted_entry kv = (case kv of (k, v) \<Rightarrow> ''`'' @ k @ ''`: '' @ render_vexpr v)"

definition render_setter :: "string \<Rightarrow> string \<times> vexpr \<Rightarrow> string" where
  "render_setter var pv = (case pv of (p, v) \<Rightarrow> var @ ''.`'' @ p @ ''` = '' @ render_vexpr v)"

definition render_node_body :: "node_body \<Rightarrow> string" where
  "render_node_body nb =
     ''WITH row WHERE '' @ join '' AND '' (map render_cond (nb_guards nb)) @ [CHR 0x0A]
     @ ''MERGE (n:`'' @ nb_label nb @ ''` { ''
     @ join '', '' (map render_entry (nb_merge_on nb)) @ '' })''
     @ [CHR 0x0A]
     @ ''SET '' @ join '', ''
         (map (render_setter ''n'') (nb_setters nb)
          @ [''n.source_system = $source_system'',
             ''n.ingest_batch  = $ingest_batch'',
             ''n.ingested_at   = datetime()''])"

text \<open>
  One row through the node body. A \<^verbatim>\<open>WHERE\<close> with no condition is not a statement, and
  \<^verbatim>\<open>MERGE\<close> refuses a \<^verbatim>\<open>null\<close> property value: both raise. A row that the guard drops
  leaves the graph as it is. Otherwise the nodes that have the label and the key values
  are updated, and when there is none, one node is created.
\<close>

definition guards_pass :: "engine \<Rightarrow> row \<Rightarrow> cond list \<Rightarrow> bool" where
  "guards_pass eng r cs = list_all (\<lambda>c. eval_cond eng r c = Some True) cs"

definition eval_pairs :: "engine \<Rightarrow> row \<Rightarrow> (string \<times> vexpr) list \<Rightarrow> (string \<times> cval) list" where
  "eval_pairs eng r kvs = map (\<lambda>(k, v). (k, eval_vexpr eng r v)) kvs"

definition exec_node_row :: "engine \<Rightarrow> stamps \<Rightarrow> node_body \<Rightarrow> row \<Rightarrow> graph \<Rightarrow> exn + graph" where
  "exec_node_row eng st nb r g =
     (if nb_guards nb = [] then Inl DatabaseError
      else if \<not> guards_pass eng r (nb_guards nb) then Inr g
      else
        (let key = eval_pairs eng r (nb_merge_on nb);
             sets = eval_pairs eng r (nb_setters nb)
         in if list_ex (\<lambda>(k, v). v = CNull) key then Inl DatabaseError
            else if list_ex (node_matches (nb_label nb) key) (g_nodes g)
            then Inr (g\<lparr>g_nodes :=
                        map (\<lambda>n. if node_matches (nb_label nb) key n
                                  then n\<lparr>n_props := stamp eng st (assign_all sets (n_props n))\<rparr>
                                  else n)
                            (g_nodes g)\<rparr>)
            else Inr (g\<lparr>g_nodes := g_nodes g
                        @ [\<lparr>n_labels = [nb_label nb],
                            n_props = stamp eng st (assign_all sets (assign_all key no_props))\<rparr>]\<rparr>)))"

subsection \<open>The relationship load body\<close>

record node_pattern =
  np_label :: string
  np_props :: "(string \<times> vexpr) list"

record rel_body =
  rb_guards :: "cond list"
  rb_linkid_guard :: "cond option"
  rb_from :: node_pattern
  rb_to :: node_pattern
  rb_type :: string
  rb_out :: bool
  rb_key :: "vexpr option"
  rb_setters :: "(string \<times> vexpr) list"

definition match_part_expr :: "string \<times> string \<Rightarrow> string \<times> vexpr" where
  "match_part_expr p =
     (case p of (src_col, target_prop) \<Rightarrow>
        (target_prop, ToInteger (StripBom False (Trim (ColQ src_col)))))"

definition node_pattern_of :: "endpoint \<Rightarrow> exn + node_pattern" where
  "node_pattern_of spec =
     (case match_keys (ep_match_on spec) of
        Inl e \<Rightarrow> Inl e
      | Inr ps \<Rightarrow> Inr \<lparr>np_label = ep_label spec, np_props = map match_part_expr ps\<rparr>)"

definition rel_body_of :: "rel_spec \<Rightarrow> exn + rel_body" where
  "rel_body_of rel_spec =
     (let direction = map upper_char (case rs_direction rel_spec of None \<Rightarrow> ''OUT'' | Some d \<Rightarrow> d);
          props = rs_properties rel_spec;
          required_cols = map required_col (ep_match_on (rs_from rel_spec) @ ep_match_on (rs_to rel_spec));
          has_linkid = (''linkid'' \<in> fst ` set props)
      in case node_pattern_of (rs_from rel_spec) of
           Inl e \<Rightarrow> Inl e
         | Inr pfrom \<Rightarrow>
             (case node_pattern_of (rs_to rel_spec) of
                Inl e \<Rightarrow> Inl e
              | Inr pto \<Rightarrow>
                  Inr \<lparr>rb_guards = map key_pred_cond required_cols,
                       rb_linkid_guard = (if has_linkid then Some (key_pred_cond ''linkid'') else None),
                       rb_from = pfrom,
                       rb_to = pto,
                       rb_type = rs_type rel_spec,
                       rb_out = (direction = ''OUT''),
                       rb_key = (if has_linkid then Some linkid_key_expr else None),
                       rb_setters =
                         map (\<lambda>(prop, spec). (prop, nullable_cast_expr (Col (fs_column spec)) spec))
                           props\<rparr>))"

definition render_node_pattern :: "string \<Rightarrow> node_pattern \<Rightarrow> string" where
  "render_node_pattern role np =
     ''(x_'' @ role @ '':`'' @ np_label np @ ''` { ''
     @ join '', '' (map render_quoted_entry (np_props np)) @ '' })''"

definition render_rel_body :: "rel_body \<Rightarrow> string" where
  "render_rel_body rb =
     (let merge_rel_props =
            (case rb_key rb of None \<Rightarrow> [] | Some k \<Rightarrow> '' { linkid: '' @ render_vexpr k @ '' }'');
          pattern =
            (if rb_out rb
             then ''(x_from)-[r:`'' @ rb_type rb @ ''`'' @ merge_rel_props @ '']->(x_to)''
             else ''(x_to)-[r:`'' @ rb_type rb @ ''`'' @ merge_rel_props @ '']->(x_from)'')
      in ''WITH row WHERE '' @ join '' AND '' (map render_cond (rb_guards rb))
         @ (case rb_linkid_guard rb of None \<Rightarrow> [] | Some c \<Rightarrow> '' AND '' @ render_cond c)
         @ [CHR 0x0A]
         @ ''MATCH '' @ render_node_pattern ''from'' (rb_from rb) @ '', ''
         @ render_node_pattern ''to'' (rb_to rb) @ [CHR 0x0A]
         @ ''MERGE '' @ pattern @ [CHR 0x0A]
         @ ''SET '' @ join '', ''
             (map (render_setter ''r'') (rb_setters rb)
              @ [''r.source_system = $source_system'',
                 ''r.ingest_batch  = $ingest_batch'',
                 ''r.ingested_at   = datetime()'']))"

text \<open>
  \<^verbatim>\<open>MERGE\<close> of the relationship between two bound nodes, followed by \<^verbatim>\<open>SET\<close>: the edges
  between the two nodes with the type (and, when the pattern has it, the \<^verbatim>\<open>linkid\<close>) are
  updated, and when there is none, one edge is created with the pattern's property.
\<close>

definition edge_matches :: "nat \<Rightarrow> nat \<Rightarrow> string \<Rightarrow> cval option \<Rightarrow> edge \<Rightarrow> bool" where
  "edge_matches a b t key e \<longleftrightarrow>
     e_src e = a \<and> e_dst e = b \<and> e_type e = t
     \<and> (case key of None \<Rightarrow> True | Some k \<Rightarrow> cy_eq (e_props e ''linkid'') k)"

definition merge_edge ::
  "string \<Rightarrow> cval option \<Rightarrow> (props \<Rightarrow> props) \<Rightarrow> nat \<times> nat \<Rightarrow> edge list \<Rightarrow> edge list" where
  "merge_edge t key upd ab es =
     (case ab of (a, b) \<Rightarrow>
        if list_ex (edge_matches a b t key) es
        then map (\<lambda>e. if edge_matches a b t key e then e\<lparr>e_props := upd (e_props e)\<rparr> else e) es
        else es @ [\<lparr>e_src = a, e_dst = b, e_type = t,
                    e_props = upd (case key of None \<Rightarrow> no_props | Some k \<Rightarrow> no_props(''linkid'' := k))\<rparr>])"

definition matching_nodes :: "engine \<Rightarrow> row \<Rightarrow> node_pattern \<Rightarrow> graph \<Rightarrow> nat list" where
  "matching_nodes eng r np g =
     filter (\<lambda>i. node_matches (np_label np) (eval_pairs eng r (np_props np)) (g_nodes g ! i))
       [0..<length (g_nodes g)]"

text \<open>
  One row through the relationship body: the guard, then every pair of a \<^verbatim>\<open>from\<close> node
  and a \<^verbatim>\<open>to\<close> node the \<^verbatim>\<open>MATCH\<close> finds, each merged in turn. The direction \<^verbatim>\<open>OUT\<close>
  puts the edge from \<^verbatim>\<open>x_from\<close> to \<^verbatim>\<open>x_to\<close>, any other direction the other way round.
\<close>

definition rel_pairs :: "engine \<Rightarrow> rel_body \<Rightarrow> row \<Rightarrow> graph \<Rightarrow> (nat \<times> nat) list" where
  "rel_pairs eng rb r g =
     concat (map (\<lambda>a. map (\<lambda>b. if rb_out rb then (a, b) else (b, a))
                          (matching_nodes eng r (rb_to rb) g))
                 (matching_nodes eng r (rb_from rb) g))"

definition exec_rel_row :: "engine \<Rightarrow> stamps \<Rightarrow> rel_body \<Rightarrow> row \<Rightarrow> graph \<Rightarrow> exn + graph" where
  "exec_rel_row eng st rb r g =
     (if rb_guards rb = [] then Inl DatabaseError
      else if \<not> guards_pass eng r (rb_guards rb @ (case rb_linkid_guard rb of None \<Rightarrow> [] | Some c \<Rightarrow> [c]))
      then Inr g
      else
        (let pairs = rel_pairs eng rb r g;
             key = map_option (eval_vexpr eng r) (rb_key rb);
             sets = eval_pairs eng r (rb_setters rb)
         in if pairs = [] then Inr g
            else if key = Some CNull then Inl DatabaseError
            else Inr (g\<lparr>g_edges :=
                        foldl (\<lambda>es ab. merge_edge (rb_type rb) key (\<lambda>ps. stamp eng st (assign_all sets ps)) ab es)
                          (g_edges g) pairs\<rparr>)))"

text \<open>
  Concrete inputs for the load bodies: a node specification keyed on a string field, the
  provenance of a run, the empty graph, and a row whose \<^verbatim>\<open>pos\<close> cell is a byte-order
  mark, a space and a byte-order mark.
\<close>

definition pos_node_spec :: node_spec where
  "pos_node_spec =
     \<lparr>ns_source = ''poses'', ns_label = ''pos'', ns_key = [''pos''],
      ns_mappings = [(''pos'', pos_spec\<lparr>fs_nullable := False\<rparr>)]\<rparr>"

definition run_stamps :: stamps where
  "run_stamps = \<lparr>st_source_system = CStr (ustr_of ''wordnet''), st_ingest_batch = CStr (ustr_of ''b1'')\<rparr>"

definition empty_graph :: graph where
  "empty_graph = \<lparr>g_nodes = [], g_edges = []\<rparr>"

definition bom_space_bom_row :: row where
  "bom_space_bom_row = [''pos'' \<mapsto> [BOM, 32, BOM]]"

subsection \<open>Rows in sequence\<close>

text \<open>The rows of a file go through a load body one after the other; an error ends it.\<close>

fun run_rows :: "(row \<Rightarrow> graph \<Rightarrow> exn + graph) \<Rightarrow> row list \<Rightarrow> graph \<Rightarrow> exn + graph" where
  "run_rows step [] g = Inr g"
| "run_rows step (r # rs) g =
     (case step r g of
        Inl e \<Rightarrow> Inl e
      | Inr g' \<Rightarrow> run_rows step rs g')"

text \<open>
  An edge of type \<open>t\<close> from \<open>a\<close> to \<open>b\<close> whose \<^verbatim>\<open>linkid\<close> is \<open>v\<close>; the number of edges of type
  \<open>t\<close> from \<open>a\<close> to \<open>b\<close>; the value the \<^verbatim>\<open>SET\<close> clause of a relationship body leaves in
  \<^verbatim>\<open>linkid\<close> (its last assignment to that property).
\<close>

definition has_edge :: "edge list \<Rightarrow> nat \<Rightarrow> nat \<Rightarrow> string \<Rightarrow> cval \<Rightarrow> bool" where
  "has_edge es a b t v =
     list_ex (\<lambda>e. e_src e = a \<and> e_dst e = b \<and> e_type e = t \<and> e_props e ''linkid'' = v) es"

definition edges_between :: "edge list \<Rightarrow> nat \<Rightarrow> nat \<Rightarrow> string \<Rightarrow> edge list" where
  "edges_between es a b t = filter (\<lambda>e. e_src e = a \<and> e_dst e = b \<and> e_type e = t) es"

definition linkid_set_to :: "engine \<Rightarrow> rel_body \<Rightarrow> row \<Rightarrow> cval option" where
  "linkid_set_to eng rb r = map_of (rev (eval_pairs eng r (rb_setters rb))) ''linkid''"

definition rel_row_passes :: "engine \<Rightarrow> rel_body \<Rightarrow> row \<Rightarrow> bool" where
  "rel_row_passes eng rb r \<longleftrightarrow>
     rb_guards rb \<noteq> []
     \<and> guards_pass eng r (rb_guards rb @ (case rb_linkid_guard rb of None \<Rightarrow> [] | Some c \<Rightarrow> [c]))"

definition count_edges :: "edge list \<Rightarrow> nat \<Rightarrow> nat \<Rightarrow> string \<Rightarrow> cval option \<Rightarrow> nat" where
  "count_edges es a b t key = length (filter (edge_matches a b t key) es)"

text \<open>
  Concrete inputs for the relationship body: a specification with the discriminator as an
  integer field, the same with the type left out (a string field), a graph of two
  \<^verbatim>\<open>synset\<close> nodes, and a row from node 1 to node 2 with a given \<^verbatim>\<open>linkid\<close> cell.
\<close>

definition link_rel_spec :: rel_spec where
  "link_rel_spec =
     \<lparr>rs_source = ''semlinkref'', rs_type = ''SYNSET'', rs_direction = None,
      rs_from = \<lparr>ep_label = ''synset'', ep_match_on = [''synset1id:synsetid'']\<rparr>,
      rs_to = \<lparr>ep_label = ''synset'', ep_match_on = [''synset2id:synsetid'']\<rparr>,
      rs_properties =
        [(''linkid'',
          \<lparr>fs_column = ''linkid'', fs_type = Some ''int'', fs_transform = [],
           fs_nullable = False\<rparr>)]\<rparr>"

definition untyped_link_rel_spec :: rel_spec where
  "untyped_link_rel_spec =
     link_rel_spec\<lparr>rs_properties :=
        [(''linkid'',
          \<lparr>fs_column = ''linkid'', fs_type = None, fs_transform = [],
           fs_nullable = False\<rparr>)]\<rparr>"

definition two_synsets :: graph where
  "two_synsets =
     \<lparr>g_nodes = [\<lparr>n_labels = [''synset''], n_props = no_props(''synsetid'' := CInt 1)\<rparr>,
                 \<lparr>n_labels = [''synset''], n_props = no_props(''synsetid'' := CInt 2)\<rparr>],
      g_edges = []\<rparr>"

definition link_row :: "ustr \<Rightarrow> row" where
  "link_row l = [''synset1id'' \<mapsto> [49], ''synset2id'' \<mapsto> [50], ''linkid'' \<mapsto> l]"

text \<open>The relationship body of both specifications, up to the \<^verbatim>\<open>SET\<close> clause.\<close>

definition link_body :: "(string \<times> vexpr) list \<Rightarrow> rel_body" where
  "link_body sets =
     \<lparr>rb_guards = [key_pred_cond ''synset1id'', key_pred_cond ''synset2id''],
      rb_linkid_guard = Some (key_pred_cond ''linkid''),
      rb_from = \<lparr>np_label = ''synset'',
                 np_props = [(''synsetid'', ToInteger (StripBom False (Trim (ColQ ''synset1id''))))]\<rparr>,
      rb_to = \<lparr>np_label = ''synset'',
               np_props = [(''synsetid'', ToInteger (StripBom False (Trim (ColQ ''synset2id''))))]\<rparr>,
      rb_type = ''SYNSET'', rb_out = True, rb_key = Some linkid_key_expr,
      rb_setters = sets\<rparr>"

definition int_linkid_setters :: "(string \<times> vexpr) list" where
  "int_linkid_setters =
     [(''linkid'', nullable_cast_expr (Col ''linkid'')
        \<lparr>fs_column = ''linkid'', fs_type = Some ''int'', fs_transform = [], fs_nullable = False\<rparr>)]"

definition string_linkid_setters :: "(string \<times> vexpr) list" where
  "string_linkid_setters =
     [(''linkid'', nullable_cast_expr (Col ''linkid'')
        \<lparr>fs_column = ''linkid'', fs_type = None, fs_transform = [], fs_nullable = False\<rparr>)]"


subsection \<open>What a promotion statement does\<close>



definition coalesce :: "cval \<Rightarrow> cval \<Rightarrow> cval" where
  "coalesce v d = (if v = CNull then d else v)"












text \<open>
  Declarations that list more than one property: a uniqueness constraint on a label and an
  index on a relationship type.
\<close>

definition entry_constraint :: index_decl where
  "entry_constraint =
     \<lparr>idx_kind = Some ''constraint'', idx_label = Some ''entry'', idx_type = None,
      idx_properties = Some [''wordid'', ''posid'', ''lang''], idx_unique = True\<rparr>"

definition synset_rel_index :: index_decl where
  "synset_rel_index =
     \<lparr>idx_kind = Some ''rel_index'', idx_label = None, idx_type = Some ''SYNSET'',
      idx_properties = Some [''linkid'', ''ingest_batch''], idx_unique = False\<rparr>"

text \<open>
  A mapping with nothing to load and five assertions, and the answers of a database to
  them: a count of one, no row, a row without the field \<^verbatim>\<open>ok\<close>, and a zero for every
  other query.
\<close>

definition asserting_mapping :: mapping where
  "asserting_mapping =
     empty_mapping\<lparr>mp_graph_assertions :=
       [''RETURN 1 AS ok'', ''MATCH (n:none) RETURN true AS ok'', ''RETURN 3 AS n'',
        ''RETURN 0 AS ok'', ''RETURN true AS ok'']\<rparr>"

definition assertion_answers :: "string \<Rightarrow> result_row list" where
  "assertion_answers q =
     (if q = ''RETURN 1 AS ok'' then [[(''ok'', PInt 1)]]
      else if q = ''MATCH (n:none) RETURN true AS ok'' then []
      else if q = ''RETURN 3 AS n'' then [[(''n'', PInt 3)]]
      else [[(''ok'', PInt 0)]])"

section \<open>Properties\<close>

subsection \<open>Constraint and index statements\<close>

lemma first_take_1: "first (take (Suc 0) xs) = first xs"
  by (cases xs) (simp_all add: first_def)

lemma constraint_stmts_first_property_only:
  "constraint_stmts (first_property_only idx) = constraint_stmts idx"
  by (cases "idx_properties idx")
     (simp_all add: constraint_stmts_def first_property_only_def item_def first_take_1
        cong: sum.case_cong)

lemma build_constraint_cypher_invariant:
  "build_constraint_cypher (map first_property_only idxs) = build_constraint_cypher idxs"
  by (induction idxs)
     (simp_all add: constraint_stmts_first_property_only cong: sum.case_cong)

lemma build_constraint_cypher_append:
  "build_constraint_cypher (xs @ ys) =
     (case build_constraint_cypher xs of
        Inl e \<Rightarrow> Inl e
      | Inr a \<Rightarrow> (case build_constraint_cypher ys of Inl e \<Rightarrow> Inl e | Inr b \<Rightarrow> Inr (a @ b)))"
  by (induction xs) (auto split: sum.splits)

text \<open>
  Claim C9. A declaration of kind \<^verbatim>\<open>constraint\<close> or \<^verbatim>\<open>rel_index\<close> with a non-empty
  \<^verbatim>\<open>properties\<close> list contributes exactly one statement, at its place among the
  statements of the other declarations, and that statement names the first property and
  no other: it is the same for every list of further properties, so cutting the
  declaration's list (or every declaration's list) down to its first entry leaves the
  generated statements unchanged.
\<close>

theorem build_constraint_cypher_first_property_only:
  assumes props: "idx_properties idx = Some (p0 # further)"
    and named: "idx_kind idx = Some ''constraint'' \<and> idx_label idx = Some name
              \<or> idx_kind idx = Some ''rel_index'' \<and> idx_type idx = Some name"
    and earlier: "build_constraint_cypher earlier = Inr before"
    and later: "build_constraint_cypher later = Inr after"
  shows "build_constraint_cypher (earlier @ idx # later)
       = Inr (before
              @ [if idx_kind idx = Some ''rel_index''
                 then ''CREATE INDEX IF NOT EXISTS FOR ()-[r:`'' @ name @ ''`]-() ON (r.`'' @ p0 @ ''`);''
                 else if idx_unique idx
                 then ''CREATE CONSTRAINT IF NOT EXISTS FOR (n:`'' @ name @ ''`) REQUIRE n.`'' @ p0 @ ''` IS UNIQUE;''
                 else ''CREATE INDEX IF NOT EXISTS FOR (n:`'' @ name @ ''`) ON (n.`'' @ p0 @ ''`);'']
              @ after)
     \<and> build_constraint_cypher (earlier @ idx\<lparr>idx_properties := Some [p0]\<rparr> # later)
       = build_constraint_cypher (earlier @ idx # later)
     \<and> build_constraint_cypher (map first_property_only idxs) = build_constraint_cypher idxs"
proof -
  let ?stmt = "if idx_kind idx = Some ''rel_index''
                 then ''CREATE INDEX IF NOT EXISTS FOR ()-[r:`'' @ name @ ''`]-() ON (r.`'' @ p0 @ ''`);''
                 else if idx_unique idx
                 then ''CREATE CONSTRAINT IF NOT EXISTS FOR (n:`'' @ name @ ''`) REQUIRE n.`'' @ p0 @ ''` IS UNIQUE;''
                 else ''CREATE INDEX IF NOT EXISTS FOR (n:`'' @ name @ ''`) ON (n.`'' @ p0 @ ''`);''"
  have one: "constraint_stmts idx = Inr [?stmt]"
    using props named by (auto simp: constraint_stmts_def item_def first_def)
  have same: "constraint_stmts (idx\<lparr>idx_properties := Some [p0]\<rparr>) = constraint_stmts idx"
    using props named by (auto simp: constraint_stmts_def item_def first_def)
  have 1: "build_constraint_cypher (earlier @ idx # later) = Inr (before @ [?stmt] @ after)"
    unfolding build_constraint_cypher_append build_constraint_cypher.simps one earlier later
    by simp
  have 2: "build_constraint_cypher (earlier @ idx\<lparr>idx_properties := Some [p0]\<rparr> # later)
       = build_constraint_cypher (earlier @ idx # later)"
    unfolding build_constraint_cypher_append build_constraint_cypher.simps same ..
  show ?thesis
    using 1 2 build_constraint_cypher_invariant by simp
qed

text \<open>
  The theorem for a constraint that lists three properties, between an index on a
  relationship type that lists two and a constraint that lists one.
\<close>

theorem build_constraint_cypher_first_property_only_witness:
  "build_constraint_cypher ([synset_rel_index] @ entry_constraint # [synset_constraint])
     = Inr ([''CREATE INDEX IF NOT EXISTS FOR ()-[r:`SYNSET`]-() ON (r.`linkid`);'']
            @ [''CREATE CONSTRAINT IF NOT EXISTS FOR (n:`entry`) REQUIRE n.`wordid` IS UNIQUE;'']
            @ [''CREATE CONSTRAINT IF NOT EXISTS FOR (n:`synset`) REQUIRE n.`synsetid` IS UNIQUE;''])
   \<and> build_constraint_cypher ([synset_rel_index] @ entry_constraint\<lparr>idx_properties := Some [''wordid'']\<rparr> # [synset_constraint])
     = build_constraint_cypher ([synset_rel_index] @ entry_constraint # [synset_constraint])
   \<and> idx_properties entry_constraint = Some [''wordid'', ''posid'', ''lang'']"
proof -
  have props: "idx_properties entry_constraint = Some (''wordid'' # [''posid'', ''lang''])"
    by (simp add: entry_constraint_def)
  have named: "idx_kind entry_constraint = Some ''constraint'' \<and> idx_label entry_constraint = Some ''entry''
              \<or> idx_kind entry_constraint = Some ''rel_index'' \<and> idx_type entry_constraint = Some ''entry''"
    by (simp add: entry_constraint_def)
  have e: "build_constraint_cypher [synset_rel_index]
         = Inr [''CREATE INDEX IF NOT EXISTS FOR ()-[r:`SYNSET`]-() ON (r.`linkid`);'']"
    by (simp add: synset_rel_index_def constraint_stmts_def item_def first_def)
  have l: "build_constraint_cypher [synset_constraint]
         = Inr [''CREATE CONSTRAINT IF NOT EXISTS FOR (n:`synset`) REQUIRE n.`synsetid` IS UNIQUE;'']"
    by (simp add: synset_constraint_def constraint_stmts_def item_def first_def)
  have k: "idx_kind entry_constraint \<noteq> Some ''rel_index''" "idx_unique entry_constraint"
    by (simp_all add: entry_constraint_def)
  show ?thesis
    using build_constraint_cypher_first_property_only[OF props named e l, of "[]"] props k
    by simp
qed

subsection \<open>The preflight scan for missing column values\<close>




lemma first_stop_member:
  "x \<in> set xs \<Longrightarrow> f x \<noteq> None \<Longrightarrow> first_stop f xs \<noteq> None"
  by (induction xs) (auto split: option.splits)



subsection \<open>The run\<close>

lemma assertion_verdict_failed_iff:
  "assertion_verdict rows = ValidationFailed \<longleftrightarrow>
     (\<exists>r rest ok. rows = r # rest \<and> map_of r ''ok'' = Some ok \<and> \<not> ok_value ok)"
  by (auto simp: assertion_verdict_def split: list.splits option.splits)

lemma run_assertion_exit_iff:
  "run_assertion env c db = (Some (Exit n), db') \<longleftrightarrow>
     n = 5 \<and> (\<exists>rows. db_run env db c [] = (Inr rows, db') \<and> assertion_verdict rows = ValidationFailed)"
  by (auto simp: run_assertion_def split: prod.splits sum.splits)

lemma for_each_exit_iff:
  "for_each (run_assertion env) cs db = (Some (Exit n), db') \<longleftrightarrow>
     n = 5 \<and> (\<exists>pre c post dbm rows. cs = pre @ c # post
        \<and> for_each (run_assertion env) pre db = (None, dbm)
        \<and> db_run env dbm c [] = (Inr rows, db')
        \<and> assertion_verdict rows = ValidationFailed)"
proof (induction cs arbitrary: db)
  case Nil
  show ?case by simp
next
  case (Cons c cs)
  show ?case
  proof (cases "run_assertion env c db")
    case (Pair r db1)
    show ?thesis
    proof (cases r)
      case None
      have "for_each (run_assertion env) (c # cs) db = for_each (run_assertion env) cs db1"
        using Pair None by simp
      moreover have "(\<exists>pre c' post dbm rows. c # cs = pre @ c' # post
        \<and> for_each (run_assertion env) pre db = (None, dbm)
        \<and> db_run env dbm c' [] = (Inr rows, db')
        \<and> assertion_verdict rows = ValidationFailed)
        \<longleftrightarrow> (\<exists>pre c' post dbm rows. cs = pre @ c' # post
        \<and> for_each (run_assertion env) pre db1 = (None, dbm)
        \<and> db_run env dbm c' [] = (Inr rows, db')
        \<and> assertion_verdict rows = ValidationFailed)" (is "?L \<longleftrightarrow> ?R")
      proof
        assume ?L
        then obtain pre c' post dbm rows where h: "c # cs = pre @ c' # post"
          "for_each (run_assertion env) pre db = (None, dbm)"
          "db_run env dbm c' [] = (Inr rows, db')" "assertion_verdict rows = ValidationFailed"
          by blast
        show ?R
        proof (cases pre)
          case Nil
          with h have "run_assertion env c db = (Some (Exit 5), db')"
            by (simp add: run_assertion_def)
          with Pair None show ?thesis by simp
        next
          case (Cons p pre')
          with h Pair None have "cs = pre' @ c' # post" "for_each (run_assertion env) pre' db1 = (None, dbm)"
            by auto
          with h show ?thesis by blast
        qed
      next
        assume ?R
        then obtain pre c' post dbm rows where h: "cs = pre @ c' # post"
          "for_each (run_assertion env) pre db1 = (None, dbm)"
          "db_run env dbm c' [] = (Inr rows, db')" "assertion_verdict rows = ValidationFailed"
          by blast
        have "c # cs = (c # pre) @ c' # post" using h by simp
        moreover have "for_each (run_assertion env) (c # pre) db = (None, dbm)"
          using h Pair None by simp
        ultimately show ?L using h by blast
      qed
      ultimately show ?thesis using Cons.IH[of db1] by simp
    next
      case (Some s)
      have fe: "for_each (run_assertion env) (c # cs) db = (Some s, db1)"
        using Pair Some by simp
      show ?thesis
      proof
        assume "for_each (run_assertion env) (c # cs) db = (Some (Exit n), db')"
        with fe have e: "s = Exit n" "db1 = db'" by auto
        with Pair Some have "run_assertion env c db = (Some (Exit n), db')" by simp
        then have "n = 5" and "\<exists>rows. db_run env db c [] = (Inr rows, db') \<and> assertion_verdict rows = ValidationFailed"
          by (auto simp: run_assertion_exit_iff)
        then show "n = 5 \<and> (\<exists>pre c' post dbm rows. c # cs = pre @ c' # post
        \<and> for_each (run_assertion env) pre db = (None, dbm)
        \<and> db_run env dbm c' [] = (Inr rows, db')
        \<and> assertion_verdict rows = ValidationFailed)"
          by (metis append_Nil for_each.simps(1))
      next
        assume a: "n = 5 \<and> (\<exists>pre c' post dbm rows. c # cs = pre @ c' # post
        \<and> for_each (run_assertion env) pre db = (None, dbm)
        \<and> db_run env dbm c' [] = (Inr rows, db')
        \<and> assertion_verdict rows = ValidationFailed)"
        then obtain pre c' post dbm rows where h: "c # cs = pre @ c' # post"
          "for_each (run_assertion env) pre db = (None, dbm)"
          "db_run env dbm c' [] = (Inr rows, db')" "assertion_verdict rows = ValidationFailed"
          by blast
        have "pre = []"
        proof (cases pre)
          case Nil then show ?thesis .
        next
          case (Cons p pre')
          with h have "p = c" by simp
          with Cons h(2) Pair Some show ?thesis by simp
        qed
        with h have "c' = c" "dbm = db" by auto
        with h have "run_assertion env c db = (Some (Exit 5), db')"
          by (simp add: run_assertion_def)
        with Pair Some have "s = Exit 5" "db1 = db'" by simp_all
        with fe a show "for_each (run_assertion env) (c # cs) db = (Some (Exit n), db')"
          by simp
      qed
    qed
  qed
qed
lemma first_stop_append:
  "first_stop f (xs @ ys) = (case first_stop f xs of Some s \<Rightarrow> Some s | None \<Rightarrow> first_stop f ys)"
  by (induction xs) (auto split: option.splits)

lemma for_each_append:
  "for_each body (xs @ ys) db =
     (case for_each body xs db of (Some s, db') \<Rightarrow> (Some s, db') | (None, db') \<Rightarrow> for_each body ys db')"
  by (induction xs arbitrary: db) (auto split: prod.splits option.splits)

lemma load_item_unknown:
  "\<not> startswith entry ''nodes.'' \<Longrightarrow> \<not> startswith entry ''relationships.''
   \<Longrightarrow> \<not> startswith entry ''derived_relationships.''
   \<Longrightarrow> load_item env a mp ps entry db = (None, db)"
  by (simp add: load_item_def)

lemma for_each_skip:
  assumes "\<And>db. body x db = (None, db)"
  shows "for_each body (pre @ x # post) db = for_each body (pre @ post) db"
  by (simp add: for_each_append assms split: prod.splits option.splits)

lemma main_stops_in_preflight:
  assumes "arg_password a = Some pw" "pw \<noteq> []"
    and "run_constraints env mp0 db = (None, db1)"
    and "preflight env a (map (annotate_source manifest) (mp_sources mp0)) = Some s"
  shows "main env a mp0 manifest db = (Some s, db1)"
  using assms by (simp add: main_def Let_def run_constraints_def)

lemma main_stops_in_constraints:
  assumes "arg_password a = Some pw" "pw \<noteq> []"
    and "run_constraints env mp0 db = (Some s, db1)"
  shows "main env a mp0 manifest db = (Some s, db1)"
  using assms by (simp add: main_def Let_def run_constraints_def)

lemma main_completes_phases:
  assumes "arg_password a = Some pw" "pw \<noteq> []"
    and "run_constraints env mp0 db = (None, db1)"
    and "preflight env a (map (annotate_source manifest) (mp_sources mp0)) = None"
    and "for_each (load_item env a (mp0\<lparr>mp_sources := map (annotate_source manifest) (mp_sources mp0)\<rparr>)
            [(''source_system'', PStr (case mp_source_system mp0 of None \<Rightarrow> ''wordnet'' | Some s \<Rightarrow> s)),
             (''ingest_batch'', PStr (make_batch_id env a mp0))])
          (mp_load_order mp0) db1 = (None, db2)"
  shows "main env a mp0 manifest db = for_each (run_assertion env) (mp_graph_assertions mp0) db2"
proof -
  have mb: "make_batch_id env a (mp0\<lparr>mp_sources := map (annotate_source manifest) (mp_sources mp0)\<rparr>)
          = make_batch_id env a mp0"
    by (simp add: make_batch_id_def cong: option.case_cong if_cong)
  show ?thesis
    using assms by (simp add: main_def Let_def run_constraints_def mb)
qed

lemma ok_value_iff: "ok_value ok \<longleftrightarrow> ok = PBool True \<or> ok = PInt 1 \<or> ok = PFloat 1"
  by (cases ok) (simp_all add: ok_value_def py_number_def)

lemma run_assertion_goes_on_iff:
  "run_assertion env c d = (None, d') \<longleftrightarrow>
     (\<exists>rows. db_run env d c [] = (Inr rows, d')
        \<and> (rows = []
           \<or> (\<exists>r rest. rows = r # rest
                \<and> (map_of r ''ok'' = None \<or> map_of r ''ok'' = Some (PBool True)
                   \<or> map_of r ''ok'' = Some (PInt 1) \<or> map_of r ''ok'' = Some (PFloat 1)))))"
  by (auto simp: run_assertion_def assertion_verdict_def ok_value_iff
       split: prod.splits sum.splits list.splits option.splits)

text \<open>
  Claim C5. In a run that reaches the validations (the password is there, and the
  constraint statements, the preflight and the loads went through), \<open>main\<close> ends with an
  exit code exactly when it comes to a configured assertion whose query returns at least
  one row, the first row has the field \<^verbatim>\<open>ok\<close>, and its value is neither \<^verbatim>\<open>True\<close> nor 1
  (the integer or the float); the code is then 5, and the assertions before it had all
  let the run go on. An assertion lets the run go on exactly when its query returns no
  row, or a first row without \<^verbatim>\<open>ok\<close>, or a first row whose \<^verbatim>\<open>ok\<close> is \<^verbatim>\<open>True\<close> or 1.
\<close>

theorem validation_fails_iff_ok_present_and_untrue:
  assumes pw: "arg_password a = Some pw" "pw \<noteq> []"
    and constraints: "run_constraints env mp0 db = (None, db1)"
    and checked: "preflight env a (map (annotate_source manifest) (mp_sources mp0)) = None"
    and loaded: "for_each (load_item env a (mp0\<lparr>mp_sources := map (annotate_source manifest) (mp_sources mp0)\<rparr>)
            [(''source_system'', PStr (case mp_source_system mp0 of None \<Rightarrow> ''wordnet'' | Some s \<Rightarrow> s)),
             (''ingest_batch'', PStr (make_batch_id env a mp0))])
          (mp_load_order mp0) db1 = (None, db2)"
  shows "(main env a mp0 manifest db = (Some (Exit n), db') \<longleftrightarrow>
          n = 5 \<and> (\<exists>passed c rest dbm r more_rows ok.
              mp_graph_assertions mp0 = passed @ c # rest
            \<and> for_each (run_assertion env) passed db2 = (None, dbm)
            \<and> db_run env dbm c [] = (Inr (r # more_rows), db')
            \<and> map_of r ''ok'' = Some ok
            \<and> ok \<noteq> PBool True \<and> ok \<noteq> PInt 1 \<and> ok \<noteq> PFloat 1))
    \<and> (run_assertion env c d = (None, d') \<longleftrightarrow>
          (\<exists>rows. db_run env d c [] = (Inr rows, d')
             \<and> (rows = []
                \<or> (\<exists>r more_rows. rows = r # more_rows
                     \<and> (map_of r ''ok'' = None \<or> map_of r ''ok'' = Some (PBool True)
                        \<or> map_of r ''ok'' = Some (PInt 1) \<or> map_of r ''ok'' = Some (PFloat 1))))))"
proof -
  have m: "main env a mp0 manifest db = for_each (run_assertion env) (mp_graph_assertions mp0) db2"
    by (rule main_completes_phases[OF pw constraints checked loaded])
  have "(for_each (run_assertion env) (mp_graph_assertions mp0) db2 = (Some (Exit n), db')) \<longleftrightarrow>
          n = 5 \<and> (\<exists>passed c rest dbm r more_rows ok.
              mp_graph_assertions mp0 = passed @ c # rest
            \<and> for_each (run_assertion env) passed db2 = (None, dbm)
            \<and> db_run env dbm c [] = (Inr (r # more_rows), db')
            \<and> map_of r ''ok'' = Some ok
            \<and> ok \<noteq> PBool True \<and> ok \<noteq> PInt 1 \<and> ok \<noteq> PFloat 1)"
    unfolding for_each_exit_iff assertion_verdict_failed_iff ok_value_iff
    by (intro conj_cong refl iffI; (elim exE conjE)?) blast+
  then show ?thesis
    unfolding m run_assertion_goes_on_iff by simp
qed

text \<open>
  The theorem for a run of five assertions: the first holds, the second returns no row,
  the third returns a row without \<^verbatim>\<open>ok\<close>, the fourth returns 0 and ends the run with
  exit code 5 before the fifth is sent.
\<close>

theorem validation_fails_iff_ok_present_and_untrue_witness:
  "main (recording_env assertion_answers [] []) plain_args asserting_mapping [] []
     = (Some (Exit 5),
        [''RETURN 1 AS ok'', ''MATCH (n:none) RETURN true AS ok'', ''RETURN 3 AS n'', ''RETURN 0 AS ok''])
   \<and> mp_graph_assertions asserting_mapping
     = [''RETURN 1 AS ok'', ''MATCH (n:none) RETURN true AS ok'', ''RETURN 3 AS n'']
       @ ''RETURN 0 AS ok'' # [''RETURN true AS ok'']
   \<and> run_assertion (recording_env assertion_answers [] []) ''RETURN 1 AS ok'' []
     = (None, [''RETURN 1 AS ok''])"
proof -
  let ?env = "recording_env assertion_answers [] []"
  let ?passed = "[''RETURN 1 AS ok'', ''MATCH (n:none) RETURN true AS ok'', ''RETURN 3 AS n'']"
  have pw: "arg_password plain_args = Some ''secret''" "''secret'' \<noteq> []"
    by (simp_all add: plain_args_def)
  have constraints: "run_constraints ?env asserting_mapping [] = (None, [])"
    by (simp add: run_constraints_def asserting_mapping_def empty_mapping_def)
  have checked: "preflight ?env plain_args
                   (map (annotate_source []) (mp_sources asserting_mapping)) = None"
    by (simp add: preflight_def plain_args_def)
  have loaded: "for_each (load_item ?env plain_args
            (asserting_mapping\<lparr>mp_sources := map (annotate_source []) (mp_sources asserting_mapping)\<rparr>)
            [(''source_system'', PStr (case mp_source_system asserting_mapping of None \<Rightarrow> ''wordnet'' | Some s \<Rightarrow> s)),
             (''ingest_batch'', PStr (make_batch_id ?env plain_args asserting_mapping))])
          (mp_load_order asserting_mapping) [] = (None, [])"
    by (simp add: asserting_mapping_def empty_mapping_def)
  note t = validation_fails_iff_ok_present_and_untrue[OF pw constraints checked loaded]
  have as: "mp_graph_assertions asserting_mapping = ?passed @ ''RETURN 0 AS ok'' # [''RETURN true AS ok'']"
    by (simp add: asserting_mapping_def)
  have one: "run_assertion ?env ''RETURN 1 AS ok'' [] = (None, [''RETURN 1 AS ok''])"
    unfolding t[THEN conjunct2]
    by (simp add: recording_env_def assertion_answers_def)
  have passed: "for_each (run_assertion ?env) ?passed [] = (None, ?passed)"
    by (simp add: run_assertion_def recording_env_def assertion_answers_def assertion_verdict_def
          ok_value_def py_number_def)
  have bad: "db_run ?env ?passed ''RETURN 0 AS ok'' []
           = (Inr ([(''ok'', PInt 0)] # []), ?passed @ [''RETURN 0 AS ok''])"
    by (simp add: recording_env_def assertion_answers_def)
  have "main ?env plain_args asserting_mapping [] [] = (Some (Exit 5), ?passed @ [''RETURN 0 AS ok''])"
    unfolding t[THEN conjunct1]
    using as passed bad by (intro conjI exI[of _ "?passed"] exI[of _ "''RETURN 0 AS ok''"]
        exI[of _ "[''RETURN true AS ok'']"] exI[of _ "[(''ok'', PInt 0)]"] exI[of _ "[]"]
        exI[of _ "PInt 0"]) simp_all
  then show ?thesis using as one by simp
qed

lemma small_constraints:
  "build_constraint_cypher [synset_constraint]
     = Inr [''CREATE CONSTRAINT IF NOT EXISTS FOR (n:`synset`) REQUIRE n.`synsetid` IS UNIQUE;'']"
  by (simp add: synset_constraint_def constraint_stmts_def item_def first_def)

lemma small_run_constraints:
  "run_constraints (recording_env ans dg ls) small_mapping []
     = (None, [''CREATE CONSTRAINT IF NOT EXISTS FOR (n:`synset`) REQUIRE n.`synsetid` IS UNIQUE;''])"
  by (simp add: run_constraints_def small_mapping_def empty_mapping_def small_constraints
        run_void_def recording_env_def del: build_constraint_cypher.simps)

lemma small_body: "\<exists>b. build_node_load_body synset_spec = Inr b"
  by (simp add: build_node_load_body_def synset_spec_def Let_def)

lemma small_sources:
  "map (annotate_source []) (mp_sources small_mapping) = [synsets_source]"
  by (simp add: small_mapping_def empty_mapping_def annotate_source_def mani_index_def)

lemma small_load:
  assumes "build_node_load_body synset_spec = Inr b"
  shows "for_each (load_item (recording_env ans dg ls) plain_args
            (small_mapping\<lparr>mp_sources := [synsets_source]\<rparr>) ps)
          (mp_load_order small_mapping) db = (None, db @ [load_csv_batched ''url'' b 10000])"
proof -
  have 1: "load_item (recording_env ans dg ls) plain_args (small_mapping\<lparr>mp_sources := [synsets_source]\<rparr>) ps ''bogus'' d = (None, d)" for d
    by (simp add: load_item_def startswith_def)
  have 2: "load_item (recording_env ans dg ls) plain_args (small_mapping\<lparr>mp_sources := [synsets_source]\<rparr>) ps ''nodes.synset'' d
      = (None, d @ [load_csv_batched ''url'' b 10000])" for d
    using assms
    by (simp add: load_item_def startswith_def load_nodes_def small_mapping_def empty_mapping_def
          url_for_source_name_def synsets_source_def synset_spec_def run_void_def
          recording_env_def plain_args_def)
  have lo: "mp_load_order small_mapping = [''nodes.synset'', ''bogus'']"
    by (simp add: small_mapping_def)
  show ?thesis
    unfolding lo by (simp add: 1 2)
qed

text \<open>
  Claim C4, as amended. An entry of \<^verbatim>\<open>load_order\<close> that starts with none of the prefixes
  \<^verbatim>\<open>nodes.\<close>, \<^verbatim>\<open>relationships.\<close> and \<^verbatim>\<open>derived_relationships.\<close> is skipped: handling it
  leaves the database as it is and the loop goes on, so the whole run is the run of the
  mapping without that entry.
\<close>

theorem unknown_entry_is_skipped:
  assumes "\<not> startswith entry ''nodes.''" and "\<not> startswith entry ''relationships.''"
    and "\<not> startswith entry ''derived_relationships.''"
  shows "load_item env a mp ps entry db = (None, db)
    \<and> main env a (mp\<lparr>mp_load_order := pre @ entry # post\<rparr>) manifest db
      = main env a (mp\<lparr>mp_load_order := pre @ post\<rparr>) manifest db"
proof -
  have skip: "\<And>m q d. load_item env a m q entry d = (None, d)"
    using assms by (rule load_item_unknown)
  have fe: "\<And>m q d. for_each (load_item env a m q) (pre @ entry # post) d
          = for_each (load_item env a m q) (pre @ post) d"
    by (rule for_each_skip) (rule skip)
  have li: "\<And>l S. load_item env a (mp\<lparr>mp_load_order := l, mp_sources := S\<rparr>)
          = load_item env a (mp\<lparr>mp_sources := S\<rparr>)"
    by (simp add: fun_eq_iff load_item_def load_nodes_def load_rels_def promote_named_edges_def
          cong: option.case_cong sum.case_cong prod.case_cong)
  have mb: "\<And>l S. make_batch_id env a (mp\<lparr>mp_load_order := l, mp_sources := S\<rparr>)
          = make_batch_id env a mp"
    by (simp add: make_batch_id_def cong: option.case_cong if_cong)
  have "main env a (mp\<lparr>mp_load_order := pre @ entry # post\<rparr>) manifest db
      = main env a (mp\<lparr>mp_load_order := pre @ post\<rparr>) manifest db"
    by (simp add: main_def Let_def run_constraints_def mb li fe
          cong: prod.case_cong option.case_cong sum.case_cong)
  with skip show ?thesis by simp
qed

theorem unknown_entry_is_skipped_witness:
  "load_item (recording_env (\<lambda>q. []) [] []) plain_args small_mapping [] ''bogus'' [] = (None, [])
   \<and> main (recording_env (\<lambda>q. []) [] []) plain_args
        (small_mapping\<lparr>mp_load_order := [''nodes.synset''] @ ''bogus'' # []\<rparr>) [] []
     = main (recording_env (\<lambda>q. []) [] []) plain_args
        (small_mapping\<lparr>mp_load_order := [''nodes.synset''] @ []\<rparr>) [] []"
proof -
  have "\<not> startswith ''bogus'' ''nodes.''" "\<not> startswith ''bogus'' ''relationships.''"
    "\<not> startswith ''bogus'' ''derived_relationships.''"
    by (simp_all add: startswith_def)
  then show ?thesis
    by (rule unknown_entry_is_skipped)
qed

text \<open>
  The claim as stated fails: the run below has an entry that resolves to no specification,
  and it neither aborts nor leaves the database untouched (the constraint and the node
  load have been sent).
\<close>

theorem unresolved_entry_counterexample:
  "\<not> resolves small_mapping ''bogus''
   \<and> ''bogus'' \<in> set (mp_load_order small_mapping)
   \<and> fst (main (recording_env (\<lambda>q. []) ''abc123'' []) plain_args small_mapping [] []) = None
   \<and> length (snd (main (recording_env (\<lambda>q. []) ''abc123'' []) plain_args small_mapping [] [])) = 2"
proof -
  obtain b where b: "build_node_load_body synset_spec = Inr b"
    using small_body by blast
  have r: "\<not> resolves small_mapping ''bogus''"
    by (simp add: resolves_def startswith_def)
  have l: "''bogus'' \<in> set (mp_load_order small_mapping)"
    by (simp add: small_mapping_def)
  have pw: "arg_password plain_args = Some ''secret''" "''secret'' \<noteq> []"
    by (simp_all add: plain_args_def)
  have pf: "preflight (recording_env (\<lambda>q. []) ''abc123'' []) plain_args
              (map (annotate_source []) (mp_sources small_mapping)) = None"
    by (simp add: preflight_def plain_args_def)
  have va: "mp_graph_assertions small_mapping = []"
    by (simp add: small_mapping_def empty_mapping_def)
  have "main (recording_env (\<lambda>q. []) ''abc123'' []) plain_args small_mapping [] []
    = (None, [''CREATE CONSTRAINT IF NOT EXISTS FOR (n:`synset`) REQUIRE n.`synsetid` IS UNIQUE;'',
              load_csv_batched ''url'' b 10000])"
    by (subst main_completes_phases[OF pw small_run_constraints pf])
       (simp_all add: small_sources small_load[OF b] va)
  with r l show ?thesis by simp
qed

text \<open>
  Claim C7, as amended. With checksum verification on, a source whose recomputed checksum
  differs from the declared one ends the run before any load, promotion or validation
  statement: the database is the one the constraint and index statements left. The exit
  code is 3 when those statements succeeded and no earlier source stopped the preflight.
\<close>

theorem checksum_mismatch_stops_after_constraints:
  assumes pw: "arg_password a = Some pw" "pw \<noteq> []"
    and vc: "arg_verify_checksums a"
    and srcs: "map (annotate_source manifest) (mp_sources mp0) = before @ src # after"
    and decl: "src_checksum_sha256 src = Some expected" "expected \<noteq> []"
    and got: "sha256_of_url env (to_url env (arg_base_url a) (src_path src)) = Inr h" "h \<noteq> expected"
  shows "(\<exists>s. main env a mp0 manifest db = (Some s, snd (run_constraints env mp0 db)))
    \<and> (fst (run_constraints env mp0 db) = None \<and> first_stop (preflight_source env a) before = None
        \<longrightarrow> fst (main env a mp0 manifest db) = Some (Exit 3))"
proof -
  have c: "check_checksum env a src (to_url env (arg_base_url a) (src_path src)) = Some (Exit 3)"
    using vc decl got by (simp add: check_checksum_def)
  then have ps: "preflight_source env a src = Some (Exit 3)"
    by (simp add: preflight_source_def Let_def)
  obtain r db1 where rc: "run_constraints env mp0 db = (r, db1)"
    by (cases "run_constraints env mp0 db")
  have pf: "preflight env a (before @ src # after) = first_stop (preflight_source env a) (before @ src # after)"
    using vc by (simp add: preflight_def)
  show ?thesis
  proof (cases r)
    case (Some s)
    with rc pw show ?thesis by (simp add: main_stops_in_constraints)
  next
    case None
    have "first_stop (preflight_source env a) (before @ src # after) \<noteq> None"
      using ps by (intro first_stop_member[of src]) simp_all
    then obtain s where s: "preflight env a (before @ src # after) = Some s"
      using pf by auto
    have m: "main env a mp0 manifest db = (Some s, db1)"
      using pw rc None s srcs by (simp add: main_stops_in_preflight)
    have "first_stop (preflight_source env a) before = None \<Longrightarrow> s = Exit 3"
      using s pf ps by (simp add: first_stop_append)
    with m rc show ?thesis by simp
  qed
qed

theorem checksum_mismatch_stops_after_constraints_witness:
  "(\<exists>s. main (recording_env (\<lambda>q. []) ''def456'' []) (plain_args\<lparr>arg_verify_checksums := True\<rparr>)
        small_mapping [] []
      = (Some s, snd (run_constraints (recording_env (\<lambda>q. []) ''def456'' []) small_mapping [])))
   \<and> fst (main (recording_env (\<lambda>q. []) ''def456'' []) (plain_args\<lparr>arg_verify_checksums := True\<rparr>)
        small_mapping [] []) = Some (Exit 3)"
proof -
  let ?env = "recording_env (\<lambda>q. []) ''def456'' []"
  let ?a = "plain_args\<lparr>arg_verify_checksums := True\<rparr>"
  have pw: "arg_password ?a = Some ''secret''" "''secret'' \<noteq> []"
    by (simp_all add: plain_args_def)
  have vc: "arg_verify_checksums ?a" by simp
  have srcs: "map (annotate_source []) (mp_sources small_mapping) = [] @ synsets_source # []"
    by (simp add: small_sources)
  have decl: "src_checksum_sha256 synsets_source = Some ''abc123''" "''abc123'' \<noteq> []"
    by (simp_all add: synsets_source_def)
  have got: "sha256_of_url ?env (to_url ?env (arg_base_url ?a) (src_path synsets_source)) = Inr ''def456''"
    "''def456'' \<noteq> ''abc123''"
    by (simp_all add: sha256_of_url_def recording_env_def)
  from checksum_mismatch_stops_after_constraints[OF pw vc srcs decl got, of "[]"]
  show ?thesis
    by (simp add: small_run_constraints)
qed

text \<open>
  The claim as stated fails: the run below exits with code 3 on the mismatch of the
  declared \<^verbatim>\<open>abc123\<close> and the recomputed \<^verbatim>\<open>def456\<close>, after the uniqueness constraint
  has been created in the database.
\<close>

theorem checksum_mismatch_counterexample:
  "src_checksum_sha256 synsets_source = Some ''abc123''
   \<and> sha256_of_url (recording_env (\<lambda>q. []) ''def456'' []) ''https://example.org/data/synsets.csv''
       = Inr ''def456''
   \<and> main (recording_env (\<lambda>q. []) ''def456'' []) (plain_args\<lparr>arg_verify_checksums := True\<rparr>)
        small_mapping [] []
     = (Some (Exit 3),
        [''CREATE CONSTRAINT IF NOT EXISTS FOR (n:`synset`) REQUIRE n.`synsetid` IS UNIQUE;''])"
proof -
  let ?env = "recording_env (\<lambda>q. []) ''def456'' []"
  let ?a = "plain_args\<lparr>arg_verify_checksums := True\<rparr>"
  have pw: "arg_password ?a = Some ''secret''" "''secret'' \<noteq> []"
    by (simp_all add: plain_args_def)
  have u: "to_url ?env (arg_base_url ?a) (src_path synsets_source) = ''https://example.org/data/synsets.csv''"
    by (simp add: to_url_def is_url_def startswith_def basename_def rstrip_with_def
          recording_env_def plain_args_def synsets_source_def)
  have pf: "preflight ?env ?a (map (annotate_source []) (mp_sources small_mapping)) = Some (Exit 3)"
  proof -
    have c: "check_checksum ?env ?a synsets_source ''https://example.org/data/synsets.csv'' = Some (Exit 3)"
      by (simp add: check_checksum_def sha256_of_url_def recording_env_def synsets_source_def
            plain_args_def)
    have "preflight_source ?env ?a synsets_source = Some (Exit 3)"
      using u c by (simp add: preflight_source_def Let_def)
    then show ?thesis
      unfolding small_sources by (simp add: preflight_def)
  qed
  have "main ?env ?a small_mapping [] []
     = (Some (Exit 3),
        [''CREATE CONSTRAINT IF NOT EXISTS FOR (n:`synset`) REQUIRE n.`synsetid` IS UNIQUE;''])"
    by (rule main_stops_in_preflight[OF pw small_run_constraints pf])
  then show ?thesis
    by (simp add: synsets_source_def sha256_of_url_def recording_env_def)
qed

section \<open>Properties of the generated statements\<close>

subsection \<open>The expression compiler\<close>

lemma render_type_cast:
  "render_vexpr (type_cast_expr e spec) = type_cast (render_sexpr e) spec"
  by (simp add: type_cast_expr_def type_cast_def Let_def)

lemma render_nullable_cast:
  "render_vexpr (nullable_cast_expr e spec) = nullable_cast (render_sexpr e) spec"
  by (simp add: nullable_cast_expr_def nullable_cast_def Let_def render_type_cast)

lemma render_key_pred: "render_cond (key_pred_cond col) = key_pred col"
  by (simp add: key_pred_cond_def key_pred_def)

lemma render_linkid_key: "render_vexpr linkid_key_expr = linkid_merge_key"
  by (simp add: linkid_key_expr_def linkid_merge_key_def)

lemma cy_trim_Nil: "cy_trim [] = []"
  by (simp add: cy_trim_def strip_with_def lstrip_with_def rstrip_with_def)

lemma cy_trim_SENTINEL: "cy_trim SENTINEL = SENTINEL"
  by (simp add: cy_trim_def strip_with_def lstrip_with_def rstrip_with_def SENTINEL_def cy_isspace_def)

lemma strip_bom_SENTINEL: "strip_bom SENTINEL = SENTINEL"
  by (simp add: strip_bom_def SENTINEL_def BOM_def)

lemma eq3_simps:
  "eq3 (Some x) (Some y) = Some (x = y)" "eq3 None b = None" "eq3 a None = None"
  by (simp_all add: eq3_def split: option.splits)

lemma normalised_value:
  "eval_sexpr eng r (Case (Eq (Trim (StripBom w e)) SentinelLit) EmptyLit (Trim (StripBom w e)))
     = (case eval_sexpr eng r e of None \<Rightarrow> None
        | Some s \<Rightarrow> Some (if cy_trim (strip_bom s) = SENTINEL then [] else cy_trim (strip_bom s)))"
  by (cases "eval_sexpr eng r e") (simp_all add: eq3_simps)

lemma normalised_value_empty:
  assumes "eval_sexpr eng r e = Some s" "normalises_to_empty s"
  shows "eval_sexpr eng r (Case (Eq (Trim (StripBom w e)) SentinelLit) EmptyLit (Trim (StripBom w e))) = Some []"
  using assms unfolding normalised_value normalises_to_empty_def by auto

lemma type_cast_null:
  "eval_sexpr eng r e = None \<Longrightarrow> eval_vexpr eng r (type_cast_expr e spec) = CNull"
  by (simp add: type_cast_expr_def Let_def normalised_value del: eval_sexpr.simps(7))

lemma type_cast_blank:
  assumes "to_integer eng [] = None" "to_float eng [] = None" "to_lower eng [] = []"
    and "eval_sexpr eng r e = Some s" "normalises_to_empty s"
  shows "eval_vexpr eng r (type_cast_expr e spec)
       = (if fs_type spec = Some ''int'' \<or> fs_type spec = Some ''float'' then CNull else CStr [])"
  using assms(1-3) normalised_value_empty[OF assms(4,5), of True]
  by (auto simp: type_cast_expr_def Let_def number_or_null_def split: option.splits
      simp del: eval_sexpr.simps(7))

lemma null_check_raw:
  "eval_cond eng r (Or (IsNull e) (Or (Eq e EmptyLit) (Eq e SentinelLit))) = Some True
   \<longleftrightarrow> eval_sexpr eng r e = None \<or> eval_sexpr eng r e = Some [] \<or> eval_sexpr eng r e = Some SENTINEL"
  by (cases "eval_sexpr eng r e") (auto simp: or3_def eq3_simps)

text \<open>
  Claim C3, as amended. The compiled expression is the text \<open>nullable_cast\<close> writes. With
  an engine whose \<^verbatim>\<open>toInteger\<close> and \<^verbatim>\<open>toFloat\<close> give \<^verbatim>\<open>null\<close> for the empty string and
  whose \<^verbatim>\<open>toLower\<close> leaves the empty string as it is, and for a raw value that normalises
  to the empty string (it is empty, the sentinel, or byte-order marks and whitespace only,
  possibly around the sentinel): a field of type \<^verbatim>\<open>int\<close> or \<^verbatim>\<open>float\<close> evaluates to
  \<^verbatim>\<open>null\<close>, nullable or not; a field of any other type evaluates to the empty string when
  it is not nullable, and to \<^verbatim>\<open>null\<close> when it is nullable and the raw value is the empty
  string or the sentinel itself. A raw value that is \<^verbatim>\<open>null\<close> gives \<^verbatim>\<open>null\<close> for every
  field.
\<close>

theorem blank_value_normalisation:
  assumes eng: "to_integer eng [] = None" "to_float eng [] = None" "to_lower eng [] = []"
    and raw: "eval_sexpr eng r e = raw"
  shows "render_vexpr (nullable_cast_expr e spec) = nullable_cast (render_sexpr e) spec
    \<and> (raw = None \<longrightarrow> eval_vexpr eng r (nullable_cast_expr e spec) = CNull)
    \<and> ((\<exists>s. raw = Some s \<and> normalises_to_empty s)
         \<and> (fs_type spec = Some ''int'' \<or> fs_type spec = Some ''float'')
           \<longrightarrow> eval_vexpr eng r (nullable_cast_expr e spec) = CNull)
    \<and> ((\<exists>s. raw = Some s \<and> normalises_to_empty s)
         \<and> fs_type spec \<noteq> Some ''int'' \<and> fs_type spec \<noteq> Some ''float'' \<and> \<not> fs_nullable spec
           \<longrightarrow> eval_vexpr eng r (nullable_cast_expr e spec) = CStr [])
    \<and> ((raw = Some [] \<or> raw = Some SENTINEL) \<and> fs_nullable spec
           \<longrightarrow> eval_vexpr eng r (nullable_cast_expr e spec) = CNull)"
proof (intro conjI impI)
  show "render_vexpr (nullable_cast_expr e spec) = nullable_cast (render_sexpr e) spec"
    by (rule render_nullable_cast)
next
  assume "raw = None"
  then have n: "eval_sexpr eng r e = None" using raw by simp
  show "eval_vexpr eng r (nullable_cast_expr e spec) = CNull"
    unfolding nullable_cast_expr_def Let_def
    by (simp add: null_check_raw n type_cast_null del: eval_cond.simps)
next
  assume h: "(\<exists>s. raw = Some s \<and> normalises_to_empty s)
         \<and> (fs_type spec = Some ''int'' \<or> fs_type spec = Some ''float'')"
  then obtain s where s: "eval_sexpr eng r e = Some s" "normalises_to_empty s"
    using raw by auto
  show "eval_vexpr eng r (nullable_cast_expr e spec) = CNull"
    unfolding nullable_cast_expr_def Let_def
    using h by (simp add: type_cast_blank[OF eng s] del: eval_cond.simps)
next
  assume h: "(\<exists>s. raw = Some s \<and> normalises_to_empty s)
         \<and> fs_type spec \<noteq> Some ''int'' \<and> fs_type spec \<noteq> Some ''float'' \<and> \<not> fs_nullable spec"
  then obtain s where s: "eval_sexpr eng r e = Some s" "normalises_to_empty s"
    using raw by auto
  show "eval_vexpr eng r (nullable_cast_expr e spec) = CStr []"
    unfolding nullable_cast_expr_def Let_def
    using h by (simp add: type_cast_blank[OF eng s])
next
  assume h: "(raw = Some [] \<or> raw = Some SENTINEL) \<and> fs_nullable spec"
  then have "eval_sexpr eng r e = Some [] \<or> eval_sexpr eng r e = Some SENTINEL"
    using raw by simp
  then show "eval_vexpr eng r (nullable_cast_expr e spec) = CNull"
    unfolding nullable_cast_expr_def Let_def
    using h by (simp add: null_check_raw del: eval_cond.simps)
qed

lemma plain_engine_blank:
  "to_integer plain_engine [] = None" "to_float plain_engine [] = None" "to_lower plain_engine [] = []"
  by (simp_all add: plain_engine_def parse_decimal_def)

lemma blank_cells:
  "normalises_to_empty [BOM, 32]" "normalises_to_empty [32, BOM]" "normalises_to_empty SENTINEL"
  by (simp_all add: normalises_to_empty_def strip_bom_def BOM_def SENTINEL_def cy_trim_def
        strip_with_def lstrip_with_def rstrip_with_def cy_isspace_def)

text \<open>
  The theorem for a nullable string field on the sentinel, a required string field on a
  byte-order mark and a space, a nullable integer field and a required float field with
  \<^verbatim>\<open>lower\<close> on a space and a byte-order mark, and a required string field on \<^verbatim>\<open>null\<close>.
\<close>

theorem blank_value_normalisation_witness:
  "eval_vexpr plain_engine [''pos'' \<mapsto> SENTINEL] (nullable_cast_expr (Col ''pos'') pos_spec) = CNull
   \<and> eval_vexpr plain_engine [''pos'' \<mapsto> [BOM, 32]]
        (nullable_cast_expr (Col ''pos'') (pos_spec\<lparr>fs_nullable := False\<rparr>)) = CStr []
   \<and> eval_vexpr plain_engine [''n'' \<mapsto> [32, BOM]]
        (nullable_cast_expr (Col ''n'') (num_spec\<lparr>fs_nullable := True\<rparr>)) = CNull
   \<and> eval_vexpr plain_engine [''n'' \<mapsto> [32, BOM]]
        (nullable_cast_expr (Col ''n'') (num_spec\<lparr>fs_type := Some ''float'', fs_transform := [''lower'']\<rparr>)) = CNull
   \<and> eval_vexpr plain_engine (\<lambda>c. None) (nullable_cast_expr (Col ''pos'') (pos_spec\<lparr>fs_nullable := False\<rparr>)) = CNull"
proof -
  note t = blank_value_normalisation[OF plain_engine_blank]
  have 1: "eval_vexpr plain_engine [''pos'' \<mapsto> SENTINEL] (nullable_cast_expr (Col ''pos'') pos_spec) = CNull"
    using t[of "[''pos'' \<mapsto> SENTINEL]" "Col ''pos''" "Some SENTINEL" pos_spec]
    by (simp add: pos_spec_def)
  have 2: "eval_vexpr plain_engine [''pos'' \<mapsto> [BOM, 32]]
        (nullable_cast_expr (Col ''pos'') (pos_spec\<lparr>fs_nullable := False\<rparr>)) = CStr []"
    using t[of "[''pos'' \<mapsto> [BOM, 32]]" "Col ''pos''" "Some [BOM, 32]" "pos_spec\<lparr>fs_nullable := False\<rparr>"]
      blank_cells
    by (simp add: pos_spec_def)
  have 3: "eval_vexpr plain_engine [''n'' \<mapsto> [32, BOM]]
        (nullable_cast_expr (Col ''n'') (num_spec\<lparr>fs_nullable := True\<rparr>)) = CNull"
    using t[of "[''n'' \<mapsto> [32, BOM]]" "Col ''n''" "Some [32, BOM]" "num_spec\<lparr>fs_nullable := True\<rparr>"]
      blank_cells
    by (simp add: num_spec_def)
  have 4: "eval_vexpr plain_engine [''n'' \<mapsto> [32, BOM]]
        (nullable_cast_expr (Col ''n'') (num_spec\<lparr>fs_type := Some ''float'', fs_transform := [''lower'']\<rparr>)) = CNull"
    using t[of "[''n'' \<mapsto> [32, BOM]]" "Col ''n''" "Some [32, BOM]"
        "num_spec\<lparr>fs_type := Some ''float'', fs_transform := [''lower'']\<rparr>"]
      blank_cells
    by (simp add: num_spec_def)
  have 5: "eval_vexpr plain_engine (\<lambda>c. None) (nullable_cast_expr (Col ''pos'') (pos_spec\<lparr>fs_nullable := False\<rparr>)) = CNull"
    using t[of "\<lambda>c. None" "Col ''pos''" None "pos_spec\<lparr>fs_nullable := False\<rparr>"]
    by simp
  show ?thesis using 1 2 3 4 5 by simp
qed

text \<open>
  Claim C3 as stated fails for a required field of type \<^verbatim>\<open>int\<close>: the type coercion is
  applied to the normalised empty string, and the expression on the sentinel evaluates to
  \<^verbatim>\<open>null\<close>, not to the empty string.
\<close>

theorem blank_value_counterexample:
  "\<not> fs_nullable num_spec
   \<and> eval_vexpr plain_engine [''n'' \<mapsto> SENTINEL] (nullable_cast_expr (Col ''n'') num_spec) = CNull
   \<and> eval_vexpr plain_engine [''n'' \<mapsto> SENTINEL] (nullable_cast_expr (Col ''n'') num_spec) \<noteq> CStr []"
proof -
  have "eval_vexpr plain_engine [''n'' \<mapsto> SENTINEL] (nullable_cast_expr (Col ''n'') num_spec) = CNull"
    by (simp add: nullable_cast_expr_def type_cast_expr_def Let_def num_spec_def eq3_simps
        strip_bom_SENTINEL cy_trim_SENTINEL number_or_null_def plain_engine_def parse_decimal_def)
  then show ?thesis by (simp add: num_spec_def)
qed

subsection \<open>The text of the load bodies\<close>

lemma render_node_setter:
  "render_setter ''n'' (node_setter_expr ks ps) = node_setter ks ps"
  by (cases ps) (simp add: render_setter_def node_setter_expr_def node_setter_def
        render_type_cast render_nullable_cast)

lemma render_node_body:
  "build_node_load_body spec = map_sum id render_node_body (node_body_of spec)"
proof (cases "lookup_all (ns_mappings spec) (ns_key spec)")
  case (Inl e)
  then show ?thesis by (simp add: build_node_load_body_def node_body_of_def)
next
  case (Inr keyed)
  have g: "map render_cond (map (\<lambda>(k, spec). key_pred_cond (fs_column spec)) keyed)
         = map key_pred (map (\<lambda>(k, spec). fs_column spec) keyed)"
    by (simp add: comp_def case_prod_beta render_key_pred)
  have m: "map render_entry
             (map (\<lambda>(k, spec). (k, type_cast_expr (Col (fs_column spec)) spec)) keyed)
         = map (\<lambda>(k, spec). k @ '': '' @ type_cast (''row.'' @ fs_column spec) spec) keyed"
    by (simp add: comp_def case_prod_beta render_type_cast render_entry_def)
  have s: "map (render_setter ''n'')
             (map (node_setter_expr (ns_key spec)) (ns_mappings spec))
         = map (node_setter (ns_key spec)) (ns_mappings spec)"
    by (simp add: comp_def render_node_setter)
  show ?thesis
    using Inr unfolding build_node_load_body_def node_body_of_def render_node_body_def Let_def
    by (simp only: sum.case map_sum.simps id_apply node_body.simps g m s)
qed

lemma render_match_part:
  "render_quoted_entry (match_part_expr p) = match_part p"
  by (cases p) (simp add: render_quoted_entry_def match_part_expr_def match_part_def)

lemma render_node_pattern:
  "match_expr role spec = map_sum id (render_node_pattern role) (node_pattern_of spec)"
  by (cases "match_keys (ep_match_on spec)")
     (simp_all add: match_expr_def node_pattern_of_def render_node_pattern_def comp_def
        render_match_part)

lemma render_rel_setters:
  "map (render_setter ''r'')
     (map (\<lambda>(prop, spec). (prop, nullable_cast_expr (Col (fs_column spec)) spec)) props)
   = map rel_setter props"
  by (simp add: comp_def case_prod_beta rel_setter_def render_nullable_cast render_setter_def)

lemma render_rel_body:
  "build_rel_load_body spec = map_sum id render_rel_body (rel_body_of spec)"
proof (cases "node_pattern_of (rs_from spec)")
  case (Inl e)
  then show ?thesis
    by (simp add: build_rel_load_body_def rel_body_of_def Let_def render_node_pattern)
next
  case f: (Inr pfrom)
  show ?thesis
  proof (cases "node_pattern_of (rs_to spec)")
    case (Inl e)
    then show ?thesis
      using f by (simp add: build_rel_load_body_def rel_body_of_def Let_def render_node_pattern)
  next
    case (Inr pto)
    have g: "map render_cond (map key_pred_cond cols) = map key_pred cols" for cols
      by (simp add: comp_def render_key_pred)
    show ?thesis
      using f Inr
      by (simp add: build_rel_load_body_def rel_body_of_def Let_def render_node_pattern
            render_rel_body_def render_rel_setters g render_key_pred render_linkid_key
          del: map_map)
  qed
qed

subsection \<open>The skip-guard\<close>

lemma key_pred_passes_iff:
  "eval_cond eng r (key_pred_cond col) = Some True \<longleftrightarrow>
     (\<exists>s. r col = Some s \<and> strip_bom (cy_trim s) \<noteq> [] \<and> strip_bom (cy_trim s) \<noteq> SENTINEL)"
  by (cases "r col") (auto simp: key_pred_cond_def eq3_simps)

lemma blank_after_trim_fails_guard:
  assumes "c \<in> set cs"
    and "r col = None \<or> (\<exists>s. r col = Some s \<and> (strip_bom (cy_trim s) = [] \<or> strip_bom (cy_trim s) = SENTINEL))"
    and "c = key_pred_cond col"
  shows "\<not> guards_pass eng r cs"
proof -
  have "eval_cond eng r c \<noteq> Some True"
    using assms(2,3) by (auto simp: key_pred_passes_iff)
  with assms(1) show ?thesis
    by (auto simp: guards_pass_def list_all_iff)
qed

lemma node_row_skipped:
  "nb_guards nb \<noteq> [] \<Longrightarrow> \<not> guards_pass eng r (nb_guards nb) \<Longrightarrow> exec_node_row eng st nb r g = Inr g"
  by (simp add: exec_node_row_def)

lemma rel_row_skipped:
  "rb_guards rb \<noteq> []
   \<Longrightarrow> \<not> guards_pass eng r (rb_guards rb @ (case rb_linkid_guard rb of None \<Rightarrow> [] | Some c \<Rightarrow> [c]))
   \<Longrightarrow> exec_rel_row eng st rb r g = Inr g"
  by (simp add: exec_rel_row_def)

lemma pos_node_body:
  "node_body_of pos_node_spec =
     Inr \<lparr>nb_guards = [key_pred_cond ''pos''], nb_label = ''pos'',
          nb_merge_on = [(''pos'', type_cast_expr (Col ''pos'') (pos_spec\<lparr>fs_nullable := False\<rparr>))],
          nb_setters = [(''pos'', type_cast_expr (Col ''pos'') (pos_spec\<lparr>fs_nullable := False\<rparr>))]\<rparr>"
  by (simp add: node_body_of_def pos_node_spec_def pos_spec_def node_setter_expr_def)

lemma trim_bsb: "cy_trim [BOM, 32, BOM] = [BOM, 32, BOM]"
  by (simp add: cy_trim_def strip_with_def lstrip_with_def rstrip_with_def cy_isspace_def BOM_def)

lemma strip_bsb: "strip_bom [BOM, 32, BOM] = [32]"
  by (simp add: strip_bom_def BOM_def)

lemma trim_space: "cy_trim [32] = []"
  by (simp add: cy_trim_def strip_with_def lstrip_with_def rstrip_with_def cy_isspace_def)

text \<open>
  Claim C2 fails on the code. The skip-guard trims first and removes byte-order marks
  afterwards, while the key expression of the \<^verbatim>\<open>MERGE\<close> removes the marks first and trims
  afterwards. A key cell holding a mark, a space and a mark normalises to the empty string,
  yet the row passes the guard (which sees a single space), the node is merged on the
  empty key, and a node with the empty key is created.
\<close>

theorem blank_key_passes_guard:
  "normalises_to_empty [BOM, 32, BOM]
   \<and> (case node_body_of pos_node_spec of
        Inl e \<Rightarrow> False
      | Inr nb \<Rightarrow>
          guards_pass plain_engine bom_space_bom_row (nb_guards nb)
          \<and> eval_pairs plain_engine bom_space_bom_row (nb_merge_on nb) = [(''pos'', CStr [])]
          \<and> (case exec_node_row plain_engine run_stamps nb bom_space_bom_row empty_graph of
                Inl e \<Rightarrow> False
              | Inr g \<Rightarrow> length (g_nodes g) = 1 \<and> n_props (hd (g_nodes g)) ''pos'' = CStr []))"
proof -
  have n: "normalises_to_empty [BOM, 32, BOM]"
    by (simp add: normalises_to_empty_def strip_bsb trim_space)
  have g: "guards_pass plain_engine bom_space_bom_row [key_pred_cond ''pos'']"
    by (simp add: guards_pass_def key_pred_passes_iff bom_space_bom_row_def trim_bsb strip_bsb
          SENTINEL_def)
  have k: "eval_vexpr plain_engine bom_space_bom_row
             (type_cast_expr (Col ''pos'') (pos_spec\<lparr>fs_nullable := False\<rparr>)) = CStr []"
    by (simp add: type_cast_expr_def Let_def pos_spec_def bom_space_bom_row_def strip_bsb
          trim_space eq3_simps SENTINEL_def)
  show ?thesis
    using n g k
    by (simp add: pos_node_body exec_node_row_def eval_pairs_def Let_def empty_graph_def
          assign_all_def stamp_def no_props_def)
qed


section \<open>The discriminator of a relationship\<close>

text \<open>
  How many edges of a type and a discriminator value run between two nodes, before and
  after a row of a relationship file has been executed.
\<close>

lemma cy_eq_refl: "k \<noteq> CNull \<Longrightarrow> cy_eq k k"
  by (cases k) simp_all

lemma cy_eq_int_distinct: "i \<noteq> j \<Longrightarrow> cy_eq v (CInt i) \<Longrightarrow> \<not> cy_eq v (CInt j)"
  by (cases v) auto

lemma count_merge_same:
  assumes U: "\<forall>ps. upd ps ''linkid'' = k" and k: "k \<noteq> CNull"
  shows "count_edges (merge_edge t (Some k) upd (a, b) es) a' b' t' (Some k)
       = (if (a', b', t') = (a, b, t) \<and> count_edges es a b t (Some k) = 0 then 1
          else count_edges es a' b' t' (Some k))"
proof (cases "list_ex (edge_matches a b t (Some k)) es")
  case True
  let ?f = "\<lambda>e. if edge_matches a b t (Some k) e then e\<lparr>e_props := upd (e_props e)\<rparr> else e"
  have same: "edge_matches a' b' t' (Some k) (?f e) = edge_matches a' b' t' (Some k) e" for e
    using U k by (auto simp: edge_matches_def cy_eq_refl)
  have "count_edges (map ?f es) a' b' t' (Some k) = count_edges es a' b' t' (Some k)"
    by (simp add: count_edges_def filter_map comp_def same)
  moreover have "count_edges es a b t (Some k) \<noteq> 0"
    using True by (auto simp: count_edges_def list_ex_iff filter_empty_conv)
  ultimately show ?thesis
    using True by (simp add: merge_edge_def)
next
  case False
  then have z: "count_edges es a b t (Some k) = 0"
    by (auto simp: count_edges_def list_ex_iff filter_empty_conv)
  show ?thesis
    using False z U k
    by (auto simp: merge_edge_def count_edges_def edge_matches_def cy_eq_refl)
qed

lemma count_merge_other:
  assumes U: "\<forall>ps. upd ps ''linkid'' = k2"
    and d: "\<forall>v. cy_eq v k2 \<longrightarrow> \<not> cy_eq v k1"
    and k2: "k2 \<noteq> CNull"
  shows "count_edges (merge_edge t (Some k2) upd ab es) a' b' t' (Some k1)
       = count_edges es a' b' t' (Some k1)"
proof -
  obtain a b where ab: "ab = (a, b)" by (cases ab)
  have nk: "\<not> cy_eq k2 k1"
    using d k2 cy_eq_refl by blast
  show ?thesis
  proof (cases "list_ex (edge_matches a b t (Some k2)) es")
    case True
    let ?f = "\<lambda>e. if edge_matches a b t (Some k2) e then e\<lparr>e_props := upd (e_props e)\<rparr> else e"
    have same: "edge_matches a' b' t' (Some k1) (?f e) = edge_matches a' b' t' (Some k1) e" for e
      using U d nk by (auto simp: edge_matches_def)
    have "count_edges (map ?f es) a' b' t' (Some k1) = count_edges es a' b' t' (Some k1)"
      by (simp add: count_edges_def filter_map comp_def same)
    then show ?thesis
      using True ab by (simp add: merge_edge_def)
  next
    case False
    then show ?thesis
      using U nk ab by (simp add: merge_edge_def count_edges_def edge_matches_def)
  qed
qed

lemma count_fold_same:
  assumes U: "\<forall>ps. upd ps ''linkid'' = k" and k: "k \<noteq> CNull"
  shows "count_edges (foldl (\<lambda>es ab. merge_edge t (Some k) upd ab es) es pairs) a b t (Some k)
       = (if (a, b) \<in> set pairs \<and> count_edges es a b t (Some k) = 0 then 1
          else count_edges es a b t (Some k))"
proof (induction pairs rule: rev_induct)
  case Nil
  show ?case by simp
next
  case (snoc q pairs)
  obtain qa qb where q: "q = (qa, qb)" by (cases q)
  show ?case
    using snoc count_merge_same[where upd=upd and k=k and t=t and a=qa and b=qb and a'=a and b'=b and t'=t, OF U k]
    by (auto simp: q)
qed

lemma count_fold_other:
  assumes U: "\<forall>ps. upd ps ''linkid'' = k2"
    and d: "\<forall>v. cy_eq v k2 \<longrightarrow> \<not> cy_eq v k1"
    and k2: "k2 \<noteq> CNull"
  shows "count_edges (foldl (\<lambda>es ab. merge_edge t (Some k2) upd ab es) es pairs) a b t' (Some k1)
       = count_edges es a b t' (Some k1)"
  by (induction pairs rule: rev_induct) (simp_all add: count_merge_other[where upd=upd and ?k2.0=k2 and ?k1.0=k1, OF U d k2])

lemma assign_all_Cons: "assign_all (x # sets) ps = assign_all sets (ps(fst x := snd x))"
  by (cases x) (simp add: assign_all_def)

lemma assign_all_unassigned: "p \<notin> fst ` set sets \<Longrightarrow> assign_all sets ps p = ps p"
  by (induction sets arbitrary: ps) (auto simp: assign_all_Cons, simp add: assign_all_def)

lemma assign_all_last: "map_of (rev sets) p = Some v \<Longrightarrow> assign_all sets ps p = v"
proof (induction sets arbitrary: ps)
  case Nil
  then show ?case by simp
next
  case (Cons x sets)
  show ?case
  proof (cases "map_of (rev sets) p")
    case None
    then have np: "p \<notin> fst ` set sets"
      by (simp add: map_of_eq_None_iff)
    from Cons.prems None have "p = fst x" "v = snd x"
      by (auto simp: map_add_def split: if_splits)
    then show ?thesis
      using np by (simp add: assign_all_Cons assign_all_unassigned)
  next
    case (Some w)
    with Cons.prems have "w = v" by (simp add: map_add_def)
    with Some Cons.IH show ?thesis by (simp add: assign_all_Cons)
  qed
qed

lemma upd_sets_linkid:
  "linkid_set_to eng rb r = Some k \<Longrightarrow>
     \<forall>ps. stamp eng st (assign_all (eval_pairs eng r (rb_setters rb)) ps) ''linkid'' = k"
  by (simp add: linkid_set_to_def stamp_def assign_all_last)

lemma rel_body_key:
  "rel_body_of rs = Inr rb \<Longrightarrow> ''linkid'' \<in> fst ` set (rs_properties rs)
     \<Longrightarrow> rb_key rb = Some linkid_key_expr"
  by (auto simp: rel_body_of_def Let_def split: sum.splits)

lemma linkid_key_shape:
  "eval_vexpr eng r linkid_key_expr = CNull \<or> (\<exists>i. eval_vexpr eng r linkid_key_expr = CInt i)"
  by (auto simp: linkid_key_expr_def number_or_null_def split: option.splits)

lemma exec_rel_row_nodes:
  "exec_rel_row eng st rb r g = Inr g' \<Longrightarrow> g_nodes g' = g_nodes g"
  by (auto simp: exec_rel_row_def Let_def split: if_splits)

lemma run_rel_rows_nodes:
  "run_rows (exec_rel_row eng st rb) rs g = Inr g' \<Longrightarrow> g_nodes g' = g_nodes g"
  by (induction rs arbitrary: g) (auto split: sum.splits dest: exec_rel_row_nodes)

lemma rel_pairs_nodes:
  "g_nodes g' = g_nodes g \<Longrightarrow> rel_pairs eng rb r g' = rel_pairs eng rb r g"
  by (simp add: rel_pairs_def matching_nodes_def)

lemma exec_rel_row_edges:
  assumes "rel_row_passes eng rb r" and "rb_key rb = Some ke"
    and "exec_rel_row eng st rb r g = Inr g'"
  shows "g_edges g' =
      foldl (\<lambda>es ab. merge_edge (rb_type rb) (Some (eval_vexpr eng r ke))
                (\<lambda>ps. stamp eng st (assign_all (eval_pairs eng r (rb_setters rb)) ps)) ab es)
        (g_edges g) (rel_pairs eng rb r g)"
    and "rel_pairs eng rb r g \<noteq> [] \<Longrightarrow> eval_vexpr eng r ke \<noteq> CNull"
  using assms by (auto simp: exec_rel_row_def rel_row_passes_def Let_def split: if_splits)

lemma rel_row_count_same:
  assumes pass: "rel_row_passes eng rb r" and key: "rb_key rb = Some linkid_key_expr"
    and set_to: "linkid_set_to eng rb r = Some (eval_vexpr eng r linkid_key_expr)"
    and run: "exec_rel_row eng st rb r g = Inr g'"
    and ab: "(a, b) \<in> set (rel_pairs eng rb r g)"
  shows "count_edges (g_edges g') a b (rb_type rb) (Some (eval_vexpr eng r linkid_key_expr))
       = (if count_edges (g_edges g) a b (rb_type rb) (Some (eval_vexpr eng r linkid_key_expr)) = 0
          then 1
          else count_edges (g_edges g) a b (rb_type rb) (Some (eval_vexpr eng r linkid_key_expr)))"
proof -
  let ?k = "eval_vexpr eng r linkid_key_expr"
  let ?upd = "\<lambda>ps. stamp eng st (assign_all (eval_pairs eng r (rb_setters rb)) ps)"
  have U: "\<forall>ps. ?upd ps ''linkid'' = ?k"
    using upd_sets_linkid[OF set_to] by simp
  have ne: "rel_pairs eng rb r g \<noteq> []"
    using ab by auto
  have k: "?k \<noteq> CNull"
    using exec_rel_row_edges(2)[OF pass key run ne] .
  show ?thesis
    unfolding exec_rel_row_edges(1)[OF pass key run]
    using count_fold_same[where upd="?upd" and k="?k", OF U k, of "rb_type rb" "g_edges g" "rel_pairs eng rb r g" a b] ab
    by simp
qed

lemma rel_row_count_other:
  assumes pass: "rel_row_passes eng rb r" and key: "rb_key rb = Some linkid_key_expr"
    and set_to: "linkid_set_to eng rb r = Some (eval_vexpr eng r linkid_key_expr)"
    and run: "exec_rel_row eng st rb r g = Inr g'"
    and diff: "eval_vexpr eng r linkid_key_expr \<noteq> k1"
    and k1: "k1 = CNull \<or> (\<exists>i. k1 = CInt i)"
  shows "count_edges (g_edges g') a b t (Some k1) = count_edges (g_edges g) a b t (Some k1)"
proof (cases "rel_pairs eng rb r g = []")
  case True
  then show ?thesis
    unfolding exec_rel_row_edges(1)[OF pass key run] by simp
next
  case False
  let ?k = "eval_vexpr eng r linkid_key_expr"
  let ?upd = "\<lambda>ps. stamp eng st (assign_all (eval_pairs eng r (rb_setters rb)) ps)"
  have U: "\<forall>ps. ?upd ps ''linkid'' = ?k"
    using upd_sets_linkid[OF set_to] by simp
  have k: "?k \<noteq> CNull"
    using exec_rel_row_edges(2)[OF pass key run False] .
  then obtain i where i: "?k = CInt i"
    using linkid_key_shape[of eng r] by auto
  have d: "\<forall>v. cy_eq v ?k \<longrightarrow> \<not> cy_eq v k1"
  proof (intro allI impI)
    fix v assume v: "cy_eq v ?k"
    show "\<not> cy_eq v k1"
    proof (cases "k1 = CNull")
      case True
      then show ?thesis by (cases v) simp_all
    next
      case False
      with k1 obtain j where j: "k1 = CInt j" by auto
      with diff i have "i \<noteq> j" by auto
      with v i j show ?thesis
        using cy_eq_int_distinct by simp
    qed
  qed
  show ?thesis
    unfolding exec_rel_row_edges(1)[OF pass key run]
    using count_fold_other[where upd="?upd" and ?k2.0="?k" and ?k1.0=k1, OF U d k] by simp
qed

lemma rel_rows_count_same:
  assumes pass: "rel_row_passes eng rb r" and key: "rb_key rb = Some linkid_key_expr"
    and set_to: "linkid_set_to eng rb r = Some (eval_vexpr eng r linkid_key_expr)"
  shows "run_rows (exec_rel_row eng st rb) (replicate n r) g = Inr g'
     \<Longrightarrow> (a, b) \<in> set (rel_pairs eng rb r g)
     \<Longrightarrow> count_edges (g_edges g) a b (rb_type rb) (Some (eval_vexpr eng r linkid_key_expr)) \<noteq> 0
     \<Longrightarrow> count_edges (g_edges g') a b (rb_type rb) (Some (eval_vexpr eng r linkid_key_expr))
         = count_edges (g_edges g) a b (rb_type rb) (Some (eval_vexpr eng r linkid_key_expr))"
proof (induction n arbitrary: g)
  case 0
  then show ?case by simp
next
  case (Suc n)
  from Suc.prems(1) obtain g1 where g1: "exec_rel_row eng st rb r g = Inr g1"
      "run_rows (exec_rel_row eng st rb) (replicate n r) g1 = Inr g'"
    by (auto split: sum.splits)
  have c: "count_edges (g_edges g1) a b (rb_type rb) (Some (eval_vexpr eng r linkid_key_expr))
         = count_edges (g_edges g) a b (rb_type rb) (Some (eval_vexpr eng r linkid_key_expr))"
    using rel_row_count_same[OF pass key set_to g1(1) Suc.prems(2)] Suc.prems(3) by simp
  have p: "(a, b) \<in> set (rel_pairs eng rb r g1)"
    using Suc.prems(2) rel_pairs_nodes[OF exec_rel_row_nodes[OF g1(1)]] by simp
  show ?case
    using Suc.IH[OF g1(2) p] c Suc.prems(3) by simp
qed

lemma rel_rows_count_other:
  assumes pass: "rel_row_passes eng rb r" and key: "rb_key rb = Some linkid_key_expr"
    and set_to: "linkid_set_to eng rb r = Some (eval_vexpr eng r linkid_key_expr)"
    and diff: "eval_vexpr eng r linkid_key_expr \<noteq> k1"
    and k1: "k1 = CNull \<or> (\<exists>i. k1 = CInt i)"
  shows "run_rows (exec_rel_row eng st rb) (replicate n r) g = Inr g'
     \<Longrightarrow> count_edges (g_edges g') a b t (Some k1) = count_edges (g_edges g) a b t (Some k1)"
proof (induction n arbitrary: g)
  case 0
  then show ?case by simp
next
  case (Suc n)
  from Suc.prems(1) obtain g1 where g1: "exec_rel_row eng st rb r g = Inr g1"
      "run_rows (exec_rel_row eng st rb) (replicate n r) g1 = Inr g'"
    by (auto split: sum.splits)
  show ?case
    using Suc.IH[OF g1(2)] rel_row_count_other[OF pass key set_to g1(1) diff k1] by simp
qed


text \<open>The two concrete relationship specifications, evaluated.\<close>

lemma link_patterns:
  "node_pattern_of \<lparr>ep_label = ''synset'', ep_match_on = [''synset1id:synsetid'']\<rparr>
     = Inr \<lparr>np_label = ''synset'',
            np_props = [(''synsetid'', ToInteger (StripBom False (Trim (ColQ ''synset1id''))))]\<rparr>"
  "node_pattern_of \<lparr>ep_label = ''synset'', ep_match_on = [''synset2id:synsetid'']\<rparr>
     = Inr \<lparr>np_label = ''synset'',
            np_props = [(''synsetid'', ToInteger (StripBom False (Trim (ColQ ''synset2id''))))]\<rparr>"
  by (simp_all add: node_pattern_of_def match_key_def match_part_expr_def)

lemma link_body_typed: "rel_body_of link_rel_spec = Inr (link_body int_linkid_setters)"
  by (simp add: rel_body_of_def link_rel_spec_def Let_def link_patterns required_col_def
        upper_char_def link_body_def int_linkid_setters_def)

lemma link_body_untyped: "rel_body_of untyped_link_rel_spec = Inr (link_body string_linkid_setters)"
  by (simp add: rel_body_of_def link_rel_spec_def untyped_link_rel_spec_def Let_def link_patterns
        required_col_def upper_char_def link_body_def string_linkid_setters_def)

lemma digit_cell:
  assumes "48 \<le> d" "d \<le> 57"
  shows "cy_trim [d] = [d]" "strip_bom [d] = [d]" "[d] \<noteq> SENTINEL"
    "parse_decimal [d] = Some (int d - 48)"
  using assms
  by (auto simp: cy_trim_def strip_with_def lstrip_with_def rstrip_with_def cy_isspace_def
        strip_bom_def BOM_def SENTINEL_def parse_decimal_def)

lemma link_row_passes:
  assumes "48 \<le> d" "d \<le> 57"
  shows "rel_row_passes plain_engine (link_body sets) (link_row [d])"
  using assms digit_cell[of d] digit_cell[of 49] digit_cell[of 50]
  by (simp add: rel_row_passes_def guards_pass_def link_body_def key_pred_passes_iff link_row_def)

lemma link_row_key:
  assumes "48 \<le> d" "d \<le> 57"
  shows "eval_vexpr plain_engine (link_row [d]) linkid_key_expr = CInt (int d - 48)"
  using assms digit_cell[of d]
  by (simp add: linkid_key_expr_def link_row_def plain_engine_def number_or_null_def)

lemma link_row_pairs:
  assumes "g_nodes g = g_nodes two_synsets"
  shows "rel_pairs plain_engine (link_body sets) (link_row l) g = [(0, 1)]"
proof -
  have u: "[0..<2] = [0, 1]" by (simp add: upt_rec)
  show ?thesis
    using assms digit_cell[of 49] digit_cell[of 50]
    by (simp add: rel_pairs_def matching_nodes_def link_body_def two_synsets_def u
          node_matches_def has_props_def eval_pairs_def link_row_def plain_engine_def
          number_or_null_def no_props_def)
qed

lemma int_linkid_set_to:
  assumes "48 \<le> d" "d \<le> 57"
  shows "linkid_set_to plain_engine (link_body int_linkid_setters) (link_row [d]) = Some (CInt (int d - 48))"
  using assms digit_cell[of d]
  by (simp add: linkid_set_to_def link_body_def int_linkid_setters_def eval_pairs_def
        nullable_cast_expr_def type_cast_expr_def Let_def link_row_def eq3_simps
        plain_engine_def number_or_null_def)

lemma string_linkid_set_to:
  assumes "48 \<le> d" "d \<le> 57"
  shows "eval_pairs plain_engine (link_row [d]) string_linkid_setters = [(''linkid'', CStr [d])]"
  using assms digit_cell[of d]
  by (simp add: string_linkid_setters_def eval_pairs_def
        nullable_cast_expr_def type_cast_expr_def Let_def link_row_def eq3_simps)


lemma exec_link_row:
  assumes d: "48 \<le> d" "d \<le> 57" and g: "g_nodes g = g_nodes two_synsets"
  shows "exec_rel_row plain_engine st (link_body sets) (link_row [d]) g
       = Inr (g\<lparr>g_edges := merge_edge ''SYNSET'' (Some (CInt (int d - 48)))
                  (\<lambda>ps. stamp plain_engine st (assign_all (eval_pairs plain_engine (link_row [d]) sets) ps))
                  (0, 1) (g_edges g)\<rparr>)"
proof -
  have p: "guards_pass plain_engine (link_row [d])
             (rb_guards (link_body sets) @ (case rb_linkid_guard (link_body sets) of None \<Rightarrow> [] | Some c \<Rightarrow> [c]))"
      "rb_guards (link_body sets) \<noteq> []"
    using link_row_passes[OF d, of sets] by (simp_all add: rel_row_passes_def)
  have k0: "rb_key (link_body sets) = Some linkid_key_expr"
    by (simp add: link_body_def)
  have k: "map_option (eval_vexpr plain_engine (link_row [d])) (rb_key (link_body sets)) = Some (CInt (int d - 48))"
    unfolding k0 using link_row_key[OF d] by simp
  have t: "rb_type (link_body sets) = ''SYNSET''" "rb_setters (link_body sets) = sets"
    by (simp_all add: link_body_def)
  show ?thesis
    unfolding exec_rel_row_def Let_def k t link_row_pairs[OF g, of sets "[d]"]
    using p by simp
qed


text \<open>
  The rows on which the \<^verbatim>\<open>SET\<close> clause leaves in the property \<^verbatim>\<open>linkid\<close> the
  value of the merge key. When a relationship has a \<^verbatim>\<open>linkid\<close> property,
  \<^verbatim>\<open>linkid\<close> is part of the merge key. Executing a row whose guards pass
  leaves exactly one edge of the type with the row's discriminator between each pair of
  endpoints when there was none, executing the row again any number of times creates no
  further edge, and a row with the same endpoints and another discriminator gets an edge
  of its own and leaves those of the first row as they are.
\<close>

theorem discriminator_merge_uniqueness:
  assumes body: "rel_body_of rs = Inr rb"
    and has: "''linkid'' \<in> fst ` set (rs_properties rs)"
    and pass1: "rel_row_passes eng rb r1" and pass2: "rel_row_passes eng rb r2"
    and set1: "linkid_set_to eng rb r1 = Some (eval_vexpr eng r1 linkid_key_expr)"
    and set2: "linkid_set_to eng rb r2 = Some (eval_vexpr eng r2 linkid_key_expr)"
    and ends: "rel_pairs eng rb r2 g = rel_pairs eng rb r1 g"
    and ab: "(a, b) \<in> set (rel_pairs eng rb r1 g)"
    and diff: "eval_vexpr eng r2 linkid_key_expr \<noteq> eval_vexpr eng r1 linkid_key_expr"
    and run1: "exec_rel_row eng st rb r1 g = Inr g1"
    and again: "run_rows (exec_rel_row eng st rb) (replicate n r1) g1 = Inr gn"
    and run2: "exec_rel_row eng st rb r2 gn = Inr g2"
  shows "rb_key rb = Some linkid_key_expr
    \<and> count_edges (g_edges g1) a b (rb_type rb) (Some (eval_vexpr eng r1 linkid_key_expr))
        = (if count_edges (g_edges g) a b (rb_type rb) (Some (eval_vexpr eng r1 linkid_key_expr)) = 0
           then 1
           else count_edges (g_edges g) a b (rb_type rb) (Some (eval_vexpr eng r1 linkid_key_expr)))
    \<and> count_edges (g_edges gn) a b (rb_type rb) (Some (eval_vexpr eng r1 linkid_key_expr))
        = count_edges (g_edges g1) a b (rb_type rb) (Some (eval_vexpr eng r1 linkid_key_expr))
    \<and> count_edges (g_edges g2) a b (rb_type rb) (Some (eval_vexpr eng r1 linkid_key_expr))
        = count_edges (g_edges g1) a b (rb_type rb) (Some (eval_vexpr eng r1 linkid_key_expr))
    \<and> count_edges (g_edges g2) a b (rb_type rb) (Some (eval_vexpr eng r2 linkid_key_expr))
        = (if count_edges (g_edges g) a b (rb_type rb) (Some (eval_vexpr eng r2 linkid_key_expr)) = 0
           then 1
           else count_edges (g_edges g) a b (rb_type rb) (Some (eval_vexpr eng r2 linkid_key_expr)))"
proof -
  let ?k1 = "eval_vexpr eng r1 linkid_key_expr"
  let ?k2 = "eval_vexpr eng r2 linkid_key_expr"
  let ?t = "rb_type rb"
  have key: "rb_key rb = Some linkid_key_expr"
    using body has by (rule rel_body_key)
  have c1: "count_edges (g_edges g1) a b ?t (Some ?k1)
        = (if count_edges (g_edges g) a b ?t (Some ?k1) = 0 then 1
           else count_edges (g_edges g) a b ?t (Some ?k1))"
    by (rule rel_row_count_same[OF pass1 key set1 run1 ab])
  then have pos: "count_edges (g_edges g1) a b ?t (Some ?k1) \<noteq> 0"
    by (simp split: if_splits)
  have n1: "g_nodes g1 = g_nodes g"
    by (rule exec_rel_row_nodes[OF run1])
  have nn: "g_nodes gn = g_nodes g"
    using run_rel_rows_nodes[OF again] n1 by simp
  have ab1: "(a, b) \<in> set (rel_pairs eng rb r1 g1)"
    using ab rel_pairs_nodes[OF n1] by simp
  have cn: "count_edges (g_edges gn) a b ?t (Some ?k1) = count_edges (g_edges g1) a b ?t (Some ?k1)"
    by (rule rel_rows_count_same[OF pass1 key set1 again ab1 pos])
  have c2: "count_edges (g_edges g2) a b ?t (Some ?k1) = count_edges (g_edges gn) a b ?t (Some ?k1)"
    by (rule rel_row_count_other[OF pass2 key set2 run2 diff linkid_key_shape])
  have d': "?k1 \<noteq> ?k2" using diff by simp
  have o1: "count_edges (g_edges g1) a b ?t (Some ?k2) = count_edges (g_edges g) a b ?t (Some ?k2)"
    by (rule rel_row_count_other[OF pass1 key set1 run1 d' linkid_key_shape])
  have on: "count_edges (g_edges gn) a b ?t (Some ?k2) = count_edges (g_edges g1) a b ?t (Some ?k2)"
    by (rule rel_rows_count_other[OF pass1 key set1 d' linkid_key_shape again])
  have ab2: "(a, b) \<in> set (rel_pairs eng rb r2 gn)"
    using ab ends rel_pairs_nodes[OF nn] by simp
  have c3: "count_edges (g_edges g2) a b ?t (Some ?k2)
        = (if count_edges (g_edges gn) a b ?t (Some ?k2) = 0 then 1
           else count_edges (g_edges gn) a b ?t (Some ?k2))"
    by (rule rel_row_count_same[OF pass2 key set2 run2 ab2])
  show ?thesis
    using key c1 cn c2 c3 o1 on by simp
qed

text \<open>
  The theorem at the specification with an integer \<^verbatim>\<open>linkid\<close> field: a row with
  discriminator 5 executed three times and a row with discriminator 7 executed once,
  between the same two nodes, leave one edge of each.
\<close>

theorem discriminator_merge_uniqueness_witness:
  "rel_body_of link_rel_spec = Inr (link_body int_linkid_setters)
   \<and> ''linkid'' \<in> fst ` set (rs_properties link_rel_spec)
   \<and> (\<exists>g1 gn g2.
        exec_rel_row plain_engine run_stamps (link_body int_linkid_setters) (link_row [53]) two_synsets = Inr g1
      \<and> run_rows (exec_rel_row plain_engine run_stamps (link_body int_linkid_setters))
          (replicate 2 (link_row [53])) g1 = Inr gn
      \<and> exec_rel_row plain_engine run_stamps (link_body int_linkid_setters) (link_row [55]) gn = Inr g2
      \<and> count_edges (g_edges g1) 0 1 ''SYNSET'' (Some (CInt 5)) = 1
      \<and> count_edges (g_edges gn) 0 1 ''SYNSET'' (Some (CInt 5)) = 1
      \<and> count_edges (g_edges g2) 0 1 ''SYNSET'' (Some (CInt 5)) = 1
      \<and> count_edges (g_edges g2) 0 1 ''SYNSET'' (Some (CInt 7)) = 1)"
proof -
  let ?rb = "link_body int_linkid_setters"
  let ?r1 = "link_row [53]"
  let ?r2 = "link_row [55]"
  let ?step = "exec_rel_row plain_engine run_stamps ?rb"
  have d1: "(48::nat) \<le> 53" "(53::nat) \<le> 57" and d2: "(48::nat) \<le> 55" "(55::nat) \<le> 57"
    by simp_all
  have has: "''linkid'' \<in> fst ` set (rs_properties link_rel_spec)"
    by (simp add: link_rel_spec_def)
  have k1: "eval_vexpr plain_engine ?r1 linkid_key_expr = CInt 5"
    using link_row_key[OF d1] by simp
  have k2: "eval_vexpr plain_engine ?r2 linkid_key_expr = CInt 7"
    using link_row_key[OF d2] by simp
  have set1: "linkid_set_to plain_engine ?rb ?r1 = Some (eval_vexpr plain_engine ?r1 linkid_key_expr)"
    unfolding k1 using int_linkid_set_to[OF d1] by simp
  have set2: "linkid_set_to plain_engine ?rb ?r2 = Some (eval_vexpr plain_engine ?r2 linkid_key_expr)"
    unfolding k2 using int_linkid_set_to[OF d2] by simp
  have pairs: "rel_pairs plain_engine ?rb (link_row l) two_synsets = [(0, 1)]" for l
    by (rule link_row_pairs[OF refl])
  have ends: "rel_pairs plain_engine ?rb ?r2 two_synsets = rel_pairs plain_engine ?rb ?r1 two_synsets"
    by (simp only: pairs)
  have ab: "(0, 1) \<in> set (rel_pairs plain_engine ?rb ?r1 two_synsets)"
    by (simp only: pairs) simp
  have diff: "eval_vexpr plain_engine ?r2 linkid_key_expr \<noteq> eval_vexpr plain_engine ?r1 linkid_key_expr"
    unfolding k1 k2 by simp
  obtain g1 where run1: "?step ?r1 two_synsets = Inr g1" and n1: "g_nodes g1 = g_nodes two_synsets"
    using exec_link_row[OF d1 refl, of run_stamps int_linkid_setters] by simp
  obtain ga where runa: "?step ?r1 g1 = Inr ga" and na: "g_nodes ga = g_nodes two_synsets"
    using exec_link_row[OF d1 n1, of run_stamps int_linkid_setters] n1 by simp
  obtain gn where runn: "?step ?r1 ga = Inr gn" and nn: "g_nodes gn = g_nodes two_synsets"
    using exec_link_row[OF d1 na, of run_stamps int_linkid_setters] na by simp
  obtain g2 where run2: "?step ?r2 gn = Inr g2"
    using exec_link_row[OF d2 nn, of run_stamps int_linkid_setters] by simp
  have again: "run_rows ?step (replicate 2 ?r1) g1 = Inr gn"
    using runa runn by (simp add: numeral_2_eq_2)
  have e: "g_edges two_synsets = []" by (simp add: two_synsets_def)
  have t: "rb_type ?rb = ''SYNSET''" by (simp add: link_body_def)
  note u = discriminator_merge_uniqueness[OF link_body_typed has
      link_row_passes[OF d1] link_row_passes[OF d2] set1 set2 ends ab diff run1 again run2]
  have "count_edges (g_edges g1) 0 1 ''SYNSET'' (Some (CInt 5)) = 1
      \<and> count_edges (g_edges gn) 0 1 ''SYNSET'' (Some (CInt 5)) = 1
      \<and> count_edges (g_edges g2) 0 1 ''SYNSET'' (Some (CInt 5)) = 1
      \<and> count_edges (g_edges g2) 0 1 ''SYNSET'' (Some (CInt 7)) = 1"
    using u unfolding k1 k2 t e by (simp add: count_edges_def)
  then show ?thesis
    using link_body_typed has run1 again run2 by blast
qed

text \<open>
  Claim C1 says that rows with the same endpoints and the same discriminator leave one
  edge, however often they are repeated. The load body breaks this when the \<^verbatim>\<open>linkid\<close>
  field is declared without a type: the merge key is the integer 5, the \<^verbatim>\<open>SET\<close>
  clause then overwrites the property with the string \<^verbatim>\<open>5\<close>, which no later merge
  key equals, and executing the same row twice leaves two edges between the same
  endpoints.
\<close>

theorem untyped_discriminator_leaves_duplicates:
  "''linkid'' \<in> fst ` set (rs_properties untyped_link_rel_spec)
   \<and> (case rel_body_of untyped_link_rel_spec of
        Inl e \<Rightarrow> False
      | Inr rb \<Rightarrow>
          (case run_rows (exec_rel_row plain_engine run_stamps rb) [link_row [53], link_row [53]] two_synsets of
             Inl e \<Rightarrow> False
           | Inr g \<Rightarrow> length (g_edges g) = 2 \<and> count_edges (g_edges g) 0 1 ''SYNSET'' None = 2))"
proof -
  have d: "(48::nat) \<le> 53" "(53::nat) \<le> 57" by simp_all
  have h: "''linkid'' \<in> fst ` set (rs_properties untyped_link_rel_spec)"
    by (simp add: untyped_link_rel_spec_def)
  have r: "run_rows (exec_rel_row plain_engine run_stamps (link_body string_linkid_setters))
             [link_row [53], link_row [53]] two_synsets
        = Inr \<lparr>g_nodes = g_nodes two_synsets,
               g_edges = [\<lparr>e_src = 0, e_dst = 1, e_type = ''SYNSET'',
                           e_props = stamp plain_engine run_stamps (no_props(''linkid'' := CStr [53]))\<rparr>,
                          \<lparr>e_src = 0, e_dst = 1, e_type = ''SYNSET'',
                           e_props = stamp plain_engine run_stamps (no_props(''linkid'' := CStr [53]))\<rparr>]\<rparr>"
  proof -
    let ?upd = "\<lambda>ps. stamp plain_engine run_stamps
                  (assign_all (eval_pairs plain_engine (link_row [53]) string_linkid_setters) ps)"
    let ?g1 = "two_synsets\<lparr>g_edges := merge_edge ''SYNSET'' (Some (CInt (int 53 - 48))) ?upd (0, 1) (g_edges two_synsets)\<rparr>"
    have e1: "exec_rel_row plain_engine run_stamps (link_body string_linkid_setters) (link_row [53]) two_synsets = Inr ?g1"
      by (rule exec_link_row[OF d refl])
    have n1: "g_nodes ?g1 = g_nodes two_synsets" by simp
    note e2 = exec_link_row[OF d n1, of run_stamps string_linkid_setters]
    show ?thesis
      unfolding run_rows.simps e1 sum.case e2
      by (simp add: string_linkid_set_to[OF d] merge_edge_def edge_matches_def
          assign_all_def stamp_def two_synsets_def)
  qed
  show ?thesis
    unfolding link_body_untyped sum.case r
    using h by (simp add: count_edges_def edge_matches_def)
qed


section \<open>Derived-edge promotion\<close>


































end
